theory Spec2Isabelle
  imports Complex_Main
begin

chapter \<open>The model\<close>

section \<open>XrplApi: address subscriptions\<close>

text \<open>
  An entry of \<open>#addressSubscriptions\<close> is the object \<open>{ address, handler }\<close>.
  Handlers are functions compared with \<open>===\<close>, that is by identity: a handler is
  modelled by an identifier of a type with equality.
\<close>

record ('a, 'h) subscription =
  address :: 'a
  handler :: 'h

text \<open>The two account requests that \<open>#handleClientRequest\<close> sends for subscriptions.\<close>

datatype 'a account_request =
  Subscribe "'a list"
| Unsubscribe "'a list"

text \<open>
  The part of an \<open>XrplApi\<close> instance that the subscription methods touch: the private
  list and, as the visible effect on the connection, the requests sent so far.
\<close>

record ('a, 'h) xrpl_api =
  addressSubscriptions :: "('a, 'h) subscription list"
  sent :: "'a account_request list"

text \<open>
  \<open>handleClientRequest net rq st\<close>: the request is issued on the connection; \<open>net rq\<close>
  is \<open>Some e\<close> when the client rejects it (the method then throws \<open>e\<close>).
\<close>

definition handleClientRequest ::
  "('a account_request \<Rightarrow> 'e option) \<Rightarrow> 'a account_request \<Rightarrow> ('a, 'h) xrpl_api
    \<Rightarrow> 'e option \<times> ('a, 'h) xrpl_api" where
  "handleClientRequest net rq st = (net rq, st\<lparr>sent := sent st @ [rq]\<rparr>)"

text \<open>\<open>subscribeToAddress\<close>: push the pair, then send the subscribe request.\<close>

definition subscribeToAddress ::
  "('a account_request \<Rightarrow> 'e option) \<Rightarrow> 'a \<Rightarrow> 'h \<Rightarrow> ('a, 'h) xrpl_api
    \<Rightarrow> 'e option \<times> ('a, 'h) xrpl_api" where
  "subscribeToAddress net a h st =
     handleClientRequest net (Subscribe [a])
       (st\<lparr>addressSubscriptions :=
            addressSubscriptions st @ [\<lparr>address = a, handler = h\<rparr>]\<rparr>)"

text \<open>\<open>xs.splice(i, 1)\<close>: the element at index \<open>i\<close> is removed, the rest keeps its order.\<close>

definition splice1 :: "nat \<Rightarrow> 'x list \<Rightarrow> 'x list" where
  "splice1 i xs = take i xs @ drop (Suc i) xs"

text \<open>
  The loop \<open>for (let i = length - 1; i >= 0; i--)\<close> of \<open>unsubscribeFromAddress\<close>.
  The counter \<open>n\<close> is \<open>i + 1\<close>: \<open>Suc i\<close> visits index \<open>i\<close> and goes on with \<open>i - 1\<close>,
  \<open>0\<close> is the exit \<open>i = -1\<close>. An index past the end would read \<open>undefined\<close> and the
  access \<open>sub.address\<close> would throw; the loop starts at \<open>length - 1\<close> and a splice at
  \<open>i\<close> only removes an index that is not visited again, so that branch is never
  taken; it is written out as \<open>None\<close>.
\<close>

fun unsubscribe_loop ::
  "'a \<Rightarrow> 'h \<Rightarrow> nat \<Rightarrow> ('a, 'h) subscription list \<Rightarrow> ('a, 'h) subscription list option" where
  "unsubscribe_loop a h 0 subs = Some subs"
| "unsubscribe_loop a h (Suc i) subs =
     (if i < length subs then
        (let sub = subs ! i in
         if address sub = a \<and> handler sub = h
         then unsubscribe_loop a h i (splice1 i subs)
         else unsubscribe_loop a h i subs)
      else None)"

text \<open>
  \<open>unsubscribeFromAddress\<close>: run the loop over the list, then send the unsubscribe
  request for the address. \<open>Inl\<close> is the TypeError of an out-of-range read.
\<close>

definition unsubscribeFromAddress ::
  "('a account_request \<Rightarrow> 'e option) \<Rightarrow> 'a \<Rightarrow> 'h \<Rightarrow> ('a, 'h) xrpl_api
    \<Rightarrow> unit + ('e option \<times> ('a, 'h) xrpl_api)" where
  "unsubscribeFromAddress net a h st =
     (case unsubscribe_loop a h (length (addressSubscriptions st)) (addressSubscriptions st) of
        None \<Rightarrow> Inl ()
      | Some subs \<Rightarrow>
          Inr (handleClientRequest net (Unsubscribe [a]) (st\<lparr>addressSubscriptions := subs\<rparr>)))"

text \<open>The predicate of the loop's test: the entry is the pair \<open>(a, h)\<close>.\<close>

definition is_pair :: "'a \<Rightarrow> 'h \<Rightarrow> ('a, 'h) subscription \<Rightarrow> bool" where
  "is_pair a h sub = (address sub = a \<and> handler sub = h)"


section \<open>XrplApi: the listener of incoming transactions\<close>

text \<open>
  The \<open>client.on("transaction", ...)\<close> listener of \<open>#initEventListeners\<close>. A message
  \<open>data\<close> of the transaction stream carries the transaction and the engine's verdict.
  Only the fields the listener reads are named; the others travel in the record's
  extension.
\<close>

record 'amt uri_token =
  index :: string
  Amount :: "'amt option"

record ('a, 'm, 'p, 'amt) xrpl_transaction =
  TransactionType :: string
  Destination :: "'a option"
  URITokenID :: "string option"
  Memos :: 'm
  HookParameters :: 'p
  URITokenSellOffer :: "'amt uri_token option"

record ('t, 'd) transaction_message =
  validated :: bool
  ledger_hash :: string
  ledger_index :: int
  transaction :: 't
  meta_delivered_amount :: "'d option"
  engine_result :: string
  engine_result_message :: string

text \<open>
  The object handed to the handlers,
  \<open>{ LedgerHash, LedgerIndex, ...data.transaction }\<close> with \<open>DeliveredAmount\<close> added when
  \<open>data.meta?.delivered_amount\<close> is there; the spread transaction is the field
  \<open>tx_fields\<close>.
\<close>

record ('t, 'd) ledger_tx =
  LedgerHash :: string
  LedgerIndex :: int
  tx_fields :: 't
  DeliveredAmount :: "'d option"

text \<open>
  What the listener calls outside the class: the account's URI tokens at a ledger index
  (\<open>XrplAccount.getURITokens\<close>) and the two decoders of \<open>TransactionHelper\<close>, whose
  sources lie outside the verified files. They are parameters.
\<close>

record ('a, 'm, 'p, 'amt) listener_env =
  getURITokens :: "'a \<Rightarrow> int \<Rightarrow> 'amt uri_token list"
  deserializeMemos :: "'m \<Rightarrow> 'm"
  deserializeHookParams :: "'p \<Rightarrow> 'p"

text \<open>
  One call of a subscriber's handler: \<open>s.handler(eventName, tx)\<close> has a payload and no
  error, \<open>s.handler(eventName, null, message)\<close> has no payload and an error message.
\<close>

datatype ('h, 't) handler_call =
  HandlerCall (callee: 'h) (event_name: string) (payload: "'t option") (failure: "string option")

text \<open>\<open>String.prototype.toLowerCase\<close> on the ASCII letters of a transaction type.\<close>

definition lower_char :: "char \<Rightarrow> char" where
  "lower_char c =
     (if (65::nat) \<le> of_char c \<and> of_char c \<le> (90::nat)
      then char_of (of_char c + (32::nat)) else c)"

definition toLowerCase :: "string \<Rightarrow> string" where
  "toLowerCase s = map lower_char s"

text \<open>\<open>o.index === data.transaction.URITokenID && o.Amount\<close>\<close>

definition is_sell_offer ::
  "('a, 'm, 'p, 'amt, 'z) xrpl_transaction_scheme \<Rightarrow> 'amt uri_token \<Rightarrow> bool" where
  "is_sell_offer t off = (Some (index off) = URITokenID t \<and> Amount off \<noteq> None)"

text \<open>
  The loop over the subscriptions for a \<open>URITokenBuy\<close>: the first subscribed account
  that held the bought token as an offer in the previous ledger becomes the destination,
  and the loop breaks.
\<close>

fun resolve_destination ::
  "('a, 'm, 'p, 'amt) listener_env \<Rightarrow> int \<Rightarrow> ('a, 'h) subscription list
    \<Rightarrow> ('a, 'm, 'p, 'amt, 'z) xrpl_transaction_scheme
    \<Rightarrow> ('a, 'm, 'p, 'amt, 'z) xrpl_transaction_scheme" where
  "resolve_destination env li [] t = t"
| "resolve_destination env li (s # ss) t =
     (case find (is_sell_offer t) (getURITokens env (address s) (li - 1)) of
        Some off \<Rightarrow> t\<lparr>Destination := Some (address s), URITokenSellOffer := Some off\<rparr>
      | None \<Rightarrow> resolve_destination env li ss t)"

text \<open>The transaction after the \<open>URITokenBuy\<close> step.\<close>

definition routed_transaction ::
  "('a, 'm, 'p, 'amt) listener_env \<Rightarrow> ('a, 'h) subscription list
    \<Rightarrow> (('a, 'm, 'p, 'amt, 'z) xrpl_transaction_scheme, 'd) transaction_message
    \<Rightarrow> ('a, 'm, 'p, 'amt, 'z) xrpl_transaction_scheme" where
  "routed_transaction env subs d =
     (if TransactionType (transaction d) = ''URITokenBuy''
      then resolve_destination env (ledger_index d) subs (transaction d)
      else transaction d)"

text \<open>\<open>matches\<close>: the subscriptions whose address is the destination (incoming only).\<close>

definition matches ::
  "('a, 'm, 'p, 'amt) listener_env \<Rightarrow> ('a, 'h) subscription list
    \<Rightarrow> (('a, 'm, 'p, 'amt, 'z) xrpl_transaction_scheme, 'd) transaction_message
    \<Rightarrow> ('a, 'h) subscription list" where
  "matches env subs d =
     filter (\<lambda>s. Some (address s) = Destination (routed_transaction env subs d)) subs"

text \<open>\<open>tx\<close> as built before the engine result is looked at.\<close>

definition event_tx ::
  "('a, 'm, 'p, 'amt) listener_env \<Rightarrow> ('a, 'h) subscription list
    \<Rightarrow> (('a, 'm, 'p, 'amt, 'z) xrpl_transaction_scheme, 'd) transaction_message
    \<Rightarrow> (('a, 'm, 'p, 'amt, 'z) xrpl_transaction_scheme, 'd) ledger_tx" where
  "event_tx env subs d =
     \<lparr>LedgerHash = ledger_hash d, LedgerIndex = ledger_index d,
      tx_fields = routed_transaction env subs d,
      DeliveredAmount = meta_delivered_amount d\<rparr>"

text \<open>\<open>tx\<close> with \<open>Memos\<close> and \<open>HookParameters\<close> deserialized, as the success branch does.\<close>

definition decoded_tx ::
  "('a, 'm, 'p, 'amt) listener_env
    \<Rightarrow> (('a, 'm, 'p, 'amt, 'z) xrpl_transaction_scheme, 'd) ledger_tx
    \<Rightarrow> (('a, 'm, 'p, 'amt, 'z) xrpl_transaction_scheme, 'd) ledger_tx" where
  "decoded_tx env tx =
     tx\<lparr>tx_fields := (tx_fields tx)
          \<lparr>Memos := deserializeMemos env (Memos (tx_fields tx)),
           HookParameters := deserializeHookParams env (HookParameters (tx_fields tx))\<rparr>\<rparr>"

text \<open>
  The listener: the handler calls it makes for one message, in order.
\<close>

definition on_transaction ::
  "('a, 'm, 'p, 'amt) listener_env \<Rightarrow> ('a, 'h) subscription list
    \<Rightarrow> (('a, 'm, 'p, 'amt, 'z) xrpl_transaction_scheme, 'd) transaction_message
    \<Rightarrow> ('h, (('a, 'm, 'p, 'amt, 'z) xrpl_transaction_scheme, 'd) ledger_tx) handler_call list" where
  "on_transaction env subs d =
     (if validated d then
        (if length (matches env subs d) > 0 then
           (let tx = event_tx env subs d;
                eventName = toLowerCase (TransactionType (tx_fields tx))
            in if engine_result d = ''tesSUCCESS''
               then map (\<lambda>s. HandlerCall (handler s) eventName (Some (decoded_tx env tx)) None)
                      (matches env subs d)
               else map (\<lambda>s. HandlerCall (handler s) eventName None
                                (Some (engine_result_message d)))
                      (matches env subs d))
         else [])
      else [])"


text \<open>A concrete listener: three subscriptions, two on the same address, and a payment that failed.\<close>


definition plain_env :: "(string, string list, string list, string) listener_env" where
  "plain_env = \<lparr>getURITokens = (\<lambda>a li. []), deserializeMemos = id, deserializeHookParams = id\<rparr>"

definition host_subscriptions :: "(string, nat) subscription list" where
  "host_subscriptions =
     [\<lparr>address = ''rHostA'', handler = 1\<rparr>, \<lparr>address = ''rHostB'', handler = 2\<rparr>,
      \<lparr>address = ''rHostA'', handler = 3\<rparr>]"

definition failed_payment ::
  "((string, string list, string list, string) xrpl_transaction, string) transaction_message" where
  "failed_payment =
     \<lparr>validated = True, ledger_hash = ''AB12'', ledger_index = 100,
      transaction = \<lparr>TransactionType = ''Payment'', Destination = Some ''rHostA'',
                      URITokenID = None, Memos = [], HookParameters = [],
                      URITokenSellOffer = None\<rparr>,
      meta_delivered_amount = None, engine_result = ''tecPATH_DRY'',
      engine_result_message = ''Path could not send partial amount.''\<rparr>"


section \<open>XrplApi: reliable submission\<close>

text \<open>
  What a call does on the connection, in order. During the wait: a sleep
  (\<open>setTimeout\<close>, in milliseconds), the request of \<open>#getLedgerIndex\<close>, the \<open>tx\<close>
  request of \<open>getTxnInfo\<close> for a hash. For a submission: the \<open>submit\<close> request with
  the blob or the \<open>submit_multisigned\<close> request with the transaction, with which the
  transaction reaches the network, and then the effects of the wait.
\<close>

datatype wait_effect =
  Sleep nat
| ReqLedgerIndex
| ReqTx string

datatype ('b, 'tx) effect =
  ReqSubmit 'b
| ReqSubmitMultisigned 'tx
| Waiting wait_effect

definition LEDGER_CLOSE_TIME :: nat where
  "LEDGER_CLOSE_TIME = 1000"

text \<open>
  The outbound transaction: \<open>LastLedgerSequence\<close> may be missing (\<open>undefined\<close> or
  \<open>null\<close>, both caught by \<open>== null\<close>); \<open>SigningPubKey\<close> is overwritten for a
  multi-signed submission.
\<close>

record outbound_tx =
  LastLedgerSequence :: "nat option"
  SigningPubKey :: "string option"

text \<open>
  The provisional result of the submit request. The code reads
  \<open>submissionResult.result.tx_json.hash\<close>; the other fields of the response travel in the
  record's extension.
\<close>

record submission_result =
  tx_json_hash :: string

text \<open>The answer to \<open>getTxnInfo\<close> (\<open>resp.result\<close> of the \<open>tx\<close> command).\<close>

record 'r hook_execution =
  HookResult :: 'r
  HookReturnCode :: string
  HookReturnString :: string

record 'r txn_info =
  info_validated :: bool
  info_hash :: "string option"
  TransactionResult :: "string option"
  HookExecutions :: "'r hook_execution list option"

text \<open>
  One lookup of the transaction by hash: the request is rejected with an error whose
  \<open>error?.data?.error\<close> is \<open>message\<close>, or it is answered.
\<close>

datatype ('e, 'r) lookup =
  Failed "string option" 'e
| Found "'r txn_info"

text \<open>
  One round of the wait loop as the ledger answers it: \<open>#getLedgerIndex\<close> fails, or it
  gives the latest ledger index and the lookup that follows it gives \<open>lookup\<close>.
  A script of rounds is the network's side of a call.
\<close>

datatype ('e, 'r) poll =
  IndexFailed 'e
| Polled nat "('e, 'r) lookup"

text \<open>
  The object thrown for an expired wait,
  \<open>{ status: 'TOOK_LONG', error: ..., ...submissionResult }\<close>: the fields of the
  provisional result are spread into it and are the field \<open>provisional\<close> here. The
  provisional result is the response of the xrpl client to the submit request, with the
  fields \<open>id\<close>, \<open>type\<close> and \<open>result\<close>; it is taken to have no field named \<open>status\<close>
  or \<open>error\<close> of its own, so the spread leaves the two fields written before it as they
  are.
\<close>

record 'sr took_long =
  status :: string
  error :: string
  provisional :: 'sr

text \<open>
  The result object of \<open>#prepareResponse\<close>, returned or thrown:
  \<open>{ id, code, details, hookExecutionResult }\<close>, the last one made of
  \<open>{ result, returnCode, message }\<close>.
\<close>

record ('r, 'n) hook_exec_result =
  hook_result :: 'r
  returnCode :: 'n
  hook_message :: string

record ('r, 'n) tx_result =
  result_id :: "string option"
  result_code :: "string option"
  details :: "'r txn_info"
  hookExecutionResult :: "('r, 'n) hook_exec_result list option"

text \<open>
  What the wait throws: the text of the missing \<open>LastLedgerSequence\<close>, the expired
  wait, the text built from a failed lookup (its message, the provisional result and the
  error it prints), and a rejection by the client passed on unchanged.
  What a reliable submission throws: one of these, or the result object of a validated
  transaction that did not succeed.
\<close>

datatype ('e, 'sr) wait_thrown =
  ThrownText string
| ThrownTookLong "'sr took_long"
| ThrownLookup "string option" 'sr 'e
| ThrownClient 'e

datatype ('e, 'sr, 'r, 'n) thrown =
  Thrown "('e, 'sr) wait_thrown"
| ThrownResult "('r, 'n) tx_result"

text \<open>The decimal digits of a ledger index, as a template literal prints it.\<close>

fun decimal :: "nat \<Rightarrow> string" where
  "decimal n =
     (if n < 10 then [char_of (48 + n)]
      else decimal (n div 10) @ [char_of (48 + n mod 10)])"

definition took_long_text :: "nat \<Rightarrow> nat \<Rightarrow> string" where
  "took_long_text latestLedger lastLedger =
     ''The latest ledger sequence '' @ decimal latestLedger
       @ '' is greater than the transaction'' @ [CHR 0x27]
       @ ''s LastLedgerSequence ('' @ decimal lastLedger @ '')''"

definition no_last_ledger_text :: string where
  "no_last_ledger_text =
     ''Transaction must contain a LastLedgerSequence value for reliable submission.''"

text \<open>Putting the effects of the round just run in front of a later outcome.\<close>

definition after_effects :: "'f list \<Rightarrow> ('f list \<times> 'x) option \<Rightarrow> ('f list \<times> 'x) option" where
  "after_effects pre r = map_option (\<lambda>(tr, x). (pre @ tr, x)) r"

text \<open>
  \<open>#waitForFinalTransactionOutcome(txHash, lastLedger, submissionResult)\<close>. Each
  recursive call of the source is one round of the script. \<open>None\<close> means that the
  script ended while the loop was still waiting: within these rounds the call has not
  returned. Otherwise the value is the effects of the call and what it throws (\<open>Inl\<close>)
  or returns (\<open>Inr\<close>).
\<close>

fun waitForFinalTransactionOutcome ::
  "string \<Rightarrow> nat option \<Rightarrow> 'sr \<Rightarrow> ('e, 'r) poll list
    \<Rightarrow> (wait_effect list \<times> (('e, 'sr) wait_thrown + 'r txn_info)) option" where
  "waitForFinalTransactionOutcome txHash None sr ps =
     Some ([], Inl (ThrownText no_last_ledger_text))"
| "waitForFinalTransactionOutcome txHash (Some lastLedger) sr [] = None"
| "waitForFinalTransactionOutcome txHash (Some lastLedger) sr (IndexFailed e # ps) =
     Some ([Sleep LEDGER_CLOSE_TIME, ReqLedgerIndex], Inl (ThrownClient e))"
| "waitForFinalTransactionOutcome txHash (Some lastLedger) sr (Polled latestLedger lk # ps) =
     (if lastLedger < latestLedger then
        Some ([Sleep LEDGER_CLOSE_TIME, ReqLedgerIndex],
              Inl (ThrownTookLong
                     \<lparr>status = ''TOOK_LONG'',
                      error = took_long_text latestLedger lastLedger,
                      provisional = sr\<rparr>))
      else
        (case lk of
           Failed message e \<Rightarrow>
             if message = Some ''txnNotFound''
             then after_effects
                    [Sleep LEDGER_CLOSE_TIME, ReqLedgerIndex, ReqTx txHash]
                    (waitForFinalTransactionOutcome txHash (Some lastLedger) sr ps)
             else Some ([Sleep LEDGER_CLOSE_TIME, ReqLedgerIndex, ReqTx txHash],
                        Inl (ThrownLookup message sr e))
         | Found txResponse \<Rightarrow>
             if info_validated txResponse
             then Some ([Sleep LEDGER_CLOSE_TIME, ReqLedgerIndex, ReqTx txHash],
                        Inr txResponse)
             else after_effects
                    [Sleep LEDGER_CLOSE_TIME, ReqLedgerIndex, ReqTx txHash]
                    (waitForFinalTransactionOutcome txHash (Some lastLedger) sr ps)))"


text \<open>
  \<open>parseInt(x, 16)\<close> and \<open>TransactionHelper.hexToASCII\<close>, which \<open>#prepareResponse\<close>
  applies to the hook executions; the helper's source lies outside the verified files.
\<close>

record 'n response_helpers =
  parseHex :: "string \<Rightarrow> 'n"
  hexToASCII :: "string \<Rightarrow> string"

text \<open>\<open>.replace(/\x00+$/, '')\<close>: the NUL characters at the end are removed.\<close>

definition strip_trailing_nuls :: "string \<Rightarrow> string" where
  "strip_trailing_nuls s = rev (dropWhile (\<lambda>c. c = CHR 0x00) (rev s))"

definition hookExecRes ::
  "'n response_helpers \<Rightarrow> 'r txn_info \<Rightarrow> ('r, 'n) hook_exec_result list option" where
  "hookExecRes hp info =
     map_option
       (map (\<lambda>o'. \<lparr>hook_result = HookResult o',
                    returnCode = parseHex hp (HookReturnCode o'),
                    hook_message = strip_trailing_nuls (hexToASCII hp (HookReturnString o'))\<rparr>))
       (HookExecutions info)"

text \<open>
  \<open>#prepareResponse(tx, submissionResult)\<close>: wait for the final outcome, arrange it,
  return it when its code is \<open>tesSUCCESS\<close> and throw it otherwise.
\<close>

definition prepareResponse ::
  "'n response_helpers \<Rightarrow> 'z outbound_tx_scheme \<Rightarrow> 'y submission_result_scheme
    \<Rightarrow> ('e, 'r) poll list
    \<Rightarrow> (wait_effect list
        \<times> (('e, 'y submission_result_scheme, 'r, 'n) thrown + ('r, 'n) tx_result)) option" where
  "prepareResponse hp tx sr ps =
     (case waitForFinalTransactionOutcome (tx_json_hash sr) (LastLedgerSequence tx) sr ps of
        None \<Rightarrow> None
      | Some (tr, Inl e) \<Rightarrow> Some (tr, Inl (Thrown e))
      | Some (tr, Inr res) \<Rightarrow>
          (let txResult = \<lparr>result_id = info_hash res, result_code = TransactionResult res,
                           details = res, hookExecutionResult = hookExecRes hp res\<rparr>
           in if result_code txResult = Some ''tesSUCCESS''
              then Some (tr, Inr txResult)
              else Some (tr, Inl (ThrownResult txResult))))"

text \<open>
  The network's side of one reliable submission: the answer to the submit request (a
  rejection, or the provisional result) and the rounds of the wait that follows.
\<close>

record ('e, 'sr, 'r) ledger_script =
  submit_reply :: "'e + 'sr"
  polls :: "('e, 'r) poll list"

text \<open>The submit request, followed by the effects of the wait.\<close>

definition after_submit ::
  "('b, 'tx) effect \<Rightarrow> (wait_effect list \<times> 'x) option \<Rightarrow> (('b, 'tx) effect list \<times> 'x) option" where
  "after_submit rq r = map_option (\<lambda>(tr, x). (rq # map Waiting tr, x)) r"

text \<open>\<open>submitAndWait(tx, tx_blob)\<close>: submit the blob, then prepare the response.\<close>

definition submitAndWait ::
  "'n response_helpers \<Rightarrow> 'z outbound_tx_scheme \<Rightarrow> 'b
    \<Rightarrow> ('e, 'y submission_result_scheme, 'r) ledger_script
    \<Rightarrow> (('b, 'tx) effect list
        \<times> (('e, 'y submission_result_scheme, 'r, 'n) thrown + ('r, 'n) tx_result)) option" where
  "submitAndWait hp tx tx_blob net =
     (case submit_reply net of
        Inl e \<Rightarrow> Some ([ReqSubmit tx_blob], Inl (Thrown (ThrownClient e)))
      | Inr submissionResult \<Rightarrow>
          after_submit (ReqSubmit tx_blob)
            (prepareResponse hp tx submissionResult (polls net)))"

text \<open>
  \<open>submitMultisignedAndWait(tx)\<close>: the signing key is blanked, the transaction is
  submitted as JSON, then the response is prepared.
\<close>

definition submitMultisignedAndWait ::
  "'n response_helpers \<Rightarrow> 'z outbound_tx_scheme
    \<Rightarrow> ('e, 'y submission_result_scheme, 'r) ledger_script
    \<Rightarrow> (('b, 'z outbound_tx_scheme) effect list
        \<times> (('e, 'y submission_result_scheme, 'r, 'n) thrown + ('r, 'n) tx_result)) option" where
  "submitMultisignedAndWait hp tx net =
     (let tx' = tx\<lparr>SigningPubKey := Some ''''\<rparr> in
      case submit_reply net of
        Inl e \<Rightarrow> Some ([ReqSubmitMultisigned tx'], Inl (Thrown (ThrownClient e)))
      | Inr submissionResult \<Rightarrow>
          after_submit (ReqSubmitMultisigned tx')
            (prepareResponse hp tx' submissionResult (polls net)))"

text \<open>
  A round that leaves the loop waiting: the latest index is not past the expiry index
  \<open>E\<close>, and the transaction is not found or is found but not validated.
\<close>

fun still_waiting :: "nat \<Rightarrow> ('e, 'r) poll \<Rightarrow> bool" where
  "still_waiting E (IndexFailed e) = False"
| "still_waiting E (Polled latestLedger (Failed message e)) =
     (latestLedger \<le> E \<and> message = Some ''txnNotFound'')"
| "still_waiting E (Polled latestLedger (Found txResponse)) =
     (latestLedger \<le> E \<and> \<not> info_validated txResponse)"


text \<open>
  Two scripts for a transaction that expires at ledger 105: in the first the ledger
  passes 105 before the transaction is validated, in the second it is validated at 105.
\<close>

definition provisional_result :: submission_result where
  "provisional_result = \<lparr>tx_json_hash = ''C53E''\<rparr>"

definition info_unvalidated :: "string txn_info" where
  "info_unvalidated =
     \<lparr>info_validated = False, info_hash = Some ''C53E'', TransactionResult = None,
      HookExecutions = None\<rparr>"

definition info_validated_ok :: "string txn_info" where
  "info_validated_ok =
     \<lparr>info_validated = True, info_hash = Some ''C53E'', TransactionResult = Some ''tesSUCCESS'',
      HookExecutions = None\<rparr>"

definition polls_expiring :: "(string, string) poll list" where
  "polls_expiring =
     [Polled 104 (Failed (Some ''txnNotFound'') ''not found''),
      Polled 105 (Found info_unvalidated),
      Polled 106 (Failed (Some ''txnNotFound'') ''not found'')]"

definition polls_validating :: "(string, string) poll list" where
  "polls_validating =
     [Polled 104 (Failed (Some ''txnNotFound'') ''not found''),
      Polled 105 (Found info_validated_ok)]"


text \<open>
  A transaction without \<open>LastLedgerSequence\<close>, sample decoders for the hook executions,
  and a ledger that accepts the submission.
\<close>

definition tx_without_expiry :: outbound_tx where
  "tx_without_expiry = \<lparr>LastLedgerSequence = None, SigningPubKey = Some ''03AB''\<rparr>"

definition sample_helpers :: "nat response_helpers" where
  "sample_helpers = \<lparr>parseHex = length, hexToASCII = (\<lambda>s. s)\<rparr>"

definition accepting_ledger :: "(string, submission_result, string) ledger_script" where
  "accepting_ledger = \<lparr>submit_reply = Inr provisional_result, polls = polls_validating\<rparr>"


section \<open>XrplApi: paginated requests\<close>

definition MAX_PAGE_LIMIT :: int where
  "MAX_PAGE_LIMIT = 400"

text \<open>
  The answer to one page request: \<open>resp.result[requestType]\<close> (absent, or an array) and
  \<open>resp.result.marker\<close> (absent, or the cursor of the next page).
\<close>

record ('i, 'm) page =
  page_items :: "'i list option"
  page_marker :: "'m option"

text \<open>
  A page request as it leaves: the \<open>limit\<close> written into the request object and the
  \<open>marker\<close> it carries, if any.
\<close>

record 'm page_request =
  req_limit :: int
  req_marker :: "'m option"

text \<open>
  \<open>count\<close> is \<open>requestObj?.limit\<close>: \<open>None\<close> when the caller gave none. JavaScript
  treats \<open>undefined\<close> and \<open>0\<close> alike in \<open>!count\<close> and in \<open>count ? ... : ...\<close>.
\<close>

definition truthy :: "int option \<Rightarrow> bool" where
  "truthy count = (case count of None \<Rightarrow> False | Some c \<Rightarrow> c \<noteq> 0)"

text \<open>
  The loop test \<open>(!count || count > 0) && (!checked || resp?.result?.marker)\<close>, with
  \<open>marker\<close> the marker of the last response.
\<close>

definition paging_continues :: "int option \<Rightarrow> bool \<Rightarrow> 'm option \<Rightarrow> bool" where
  "paging_continues count checked marker =
     ((\<not> truthy count \<or> (case count of None \<Rightarrow> False | Some c \<Rightarrow> c > 0))
      \<and> (\<not> checked \<or> marker \<noteq> None))"

text \<open>\<open>requestObj.limit = count ? Math.min(count, MAX_PAGE_LIMIT) : MAX_PAGE_LIMIT\<close>\<close>

definition page_limit :: "int option \<Rightarrow> int" where
  "page_limit count =
     (case count of
        None \<Rightarrow> MAX_PAGE_LIMIT
      | Some c \<Rightarrow> if c \<noteq> 0 then min c MAX_PAGE_LIMIT else MAX_PAGE_LIMIT)"

text \<open>\<open>if (count) count -= requestObj.limit\<close>\<close>

definition count_after :: "int option \<Rightarrow> int option" where
  "count_after count =
     (case count of
        None \<Rightarrow> None
      | Some c \<Rightarrow> if c \<noteq> 0 then Some (c - page_limit count) else Some c)"

text \<open>
  The \<open>while\<close> loop of \<open>#requestWithPaging\<close>, run against the endpoint's answers in
  order: each answer is a rejection (\<open>Inl\<close>, which the method throws) or a page. The
  value is the requests sent and what the method throws or returns; \<open>None\<close> means that
  the answers ran out while the loop was still asking.
\<close>

fun paging_loop ::
  "int option \<Rightarrow> bool \<Rightarrow> 'm option \<Rightarrow> 'i list \<Rightarrow> ('e + ('i, 'm) page) list
    \<Rightarrow> ('m page_request list \<times> ('e + 'i list)) option" where
  "paging_loop count checked marker res [] =
     (if paging_continues count checked marker then None else Some ([], Inr res))"
| "paging_loop count checked marker res (answer # answers) =
     (if paging_continues count checked marker then
        (let rq = \<lparr>req_limit = page_limit count, req_marker = marker\<rparr> in
         case answer of
           Inl e \<Rightarrow> Some ([rq], Inl e)
         | Inr resp \<Rightarrow>
             map_option (\<lambda>(rqs, r). (rq # rqs, r))
               (paging_loop (count_after count) True (page_marker resp)
                  (res @ (case page_items resp of None \<Rightarrow> [] | Some xs \<Rightarrow> xs))
                  answers))
      else Some ([], Inr res))"

text \<open>\<open>#requestWithPaging(requestObj, requestType)\<close> with \<open>requestObj.limit = limit\<close>.\<close>

definition requestWithPaging ::
  "int option \<Rightarrow> ('e + ('i, 'm) page) list \<Rightarrow> ('m page_request list \<times> ('e + 'i list)) option" where
  "requestWithPaging limit answers = paging_loop limit False None [] answers"

text \<open>
  An account with thirteen objects, asked for with \<open>limit: 10\<close>: the first page holds
  ten and a marker, the second the other three.
\<close>

definition thirteen_objects :: "(string + (nat, string) page) list" where
  "thirteen_objects =
     [Inr \<lparr>page_items = Some [1, 2, 3, 4, 5, 6, 7, 8, 9, 10], page_marker = Some ''m1''\<rparr>,
      Inr \<lparr>page_items = Some [11, 12, 13], page_marker = None\<rparr>]"


section \<open>HostClient: submission with retries\<close>

definition TX_RETRY_INTERVAL :: nat where
  "TX_RETRY_INTERVAL = 3000"

text \<open>
  The retry options, each of them optional (\<open>options?.maxRetryAttempts\<close>,
  \<open>options?.feeUplift\<close>); a missing options object is the record with both absent.
\<close>

record retry_options =
  maxRetryAttempts :: "nat option"
  feeUplift :: "int option"

text \<open>
  A value thrown by the callback, as the wrapper reads it: \<open>e.code\<close> and \<open>e.status\<close>,
  each possibly absent. Whatever else the value holds is in the record's extension.
\<close>

record thrown_error =
  error_code :: "string option"
  error_status :: "string option"

text \<open>\<open>options?.maxRetryAttempts || 1\<close> and \<open>options?.feeUplift || 0\<close>\<close>

definition max_attempts :: "retry_options \<Rightarrow> nat" where
  "max_attempts options =
     (case maxRetryAttempts options of None \<Rightarrow> 1 | Some n \<Rightarrow> if n = 0 then 1 else n)"

definition uplift_step :: "retry_options \<Rightarrow> int" where
  "uplift_step options =
     (case feeUplift options of None \<Rightarrow> 0 | Some f \<Rightarrow> if f = 0 then 0 else f)"

text \<open>
  \<open>e.code === "tecDUPLICATE" || e.code === "tefPAST_SEQ" || e.code === "tefALREADY"\<close>
\<close>

definition terminal_code :: "'z thrown_error_scheme \<Rightarrow> bool" where
  "terminal_code e =
     (error_code e = Some ''tecDUPLICATE'' \<or> error_code e = Some ''tefPAST_SEQ''
      \<or> error_code e = Some ''tefALREADY'')"

text \<open>
  What a run of the wrapper does, in order: a call of the callback with a fee uplift,
  together with what the call threw (\<open>Inl\<close>) or returned (\<open>Inr\<close>), and a pause of so many
  milliseconds.
\<close>

datatype ('e, 'v) retry_event =
  Attempt int "'e + 'v"
| Pause nat

text \<open>
  How the wrapper ends: it returns the callback's value, it throws the callback's error,
  or it leaves the \<open>while\<close> loop and returns \<open>undefined\<close>.
\<close>

datatype ('e, 'v) retry_outcome =
  Returned 'v
| Threw 'e
| ReturnedUndefined

text \<open>
  The \<open>while (attempt <= maxAttempts)\<close> loop of \<open>#submitWithRetry\<close>, entered with the
  current \<open>attempt\<close> and \<open>feeUplift\<close>. The callback submits to the ledger: it takes the
  fee uplift and the state of the world and gives what it throws or returns, and the new
  state.
\<close>

function submit_loop ::
  "(int \<Rightarrow> 's \<Rightarrow> ('z thrown_error_scheme + 'v) \<times> 's) \<Rightarrow> nat \<Rightarrow> int \<Rightarrow> nat \<Rightarrow> int \<Rightarrow> 's
    \<Rightarrow> ('z thrown_error_scheme, 'v) retry_event list
        \<times> ('z thrown_error_scheme, 'v) retry_outcome \<times> 's" where
  "submit_loop callback maxAttempts step attempt fee st =
     (if attempt \<le> maxAttempts then
        (case callback fee st of
           (Inr v, st') \<Rightarrow> ([Attempt fee (Inr v)], Returned v, st')
         | (Inl e, st') \<Rightarrow>
             if Suc attempt = maxAttempts \<or> terminal_code e
             then ([Attempt fee (Inl e)], Threw e, st')
             else
               (case submit_loop callback maxAttempts step (Suc attempt)
                       (if error_status e = Some ''TOOK_LONG'' then fee + step else fee) st' of
                  (events, outcome, st'') \<Rightarrow>
                    (Attempt fee (Inl e) # Pause TX_RETRY_INTERVAL # events, outcome, st'')))
      else ([], ReturnedUndefined, st))"
  by pat_completeness auto
termination
  by (relation "measure (\<lambda>(callback, maxAttempts, step, attempt, fee, st).
                           Suc maxAttempts - attempt)") auto

text \<open>\<open>#submitWithRetry(callback, options)\<close>: the loop from \<open>attempt = 0\<close>, \<open>feeUplift = 0\<close>.\<close>

definition submitWithRetry ::
  "(int \<Rightarrow> 's \<Rightarrow> ('z thrown_error_scheme + 'v) \<times> 's) \<Rightarrow> retry_options \<Rightarrow> 's
    \<Rightarrow> ('z thrown_error_scheme, 'v) retry_event list
        \<times> ('z thrown_error_scheme, 'v) retry_outcome \<times> 's" where
  "submitWithRetry callback options st =
     submit_loop callback (max_attempts options) (uplift_step options) 0 0 st"

text \<open>The calls of the callback among the events of a run.\<close>

fun is_attempt :: "('e, 'v) retry_event \<Rightarrow> bool" where
  "is_attempt (Attempt fee r) = True"
| "is_attempt (Pause ms) = False"

definition attempts :: "('e, 'v) retry_event list \<Rightarrow> nat" where
  "attempts events = length (filter is_attempt events)"

text \<open>The fee uplift after a failure: raised by the step when the failure is \<open>TOOK_LONG\<close>.\<close>

definition next_uplift :: "int \<Rightarrow> int \<Rightarrow> 'z thrown_error_scheme \<Rightarrow> int" where
  "next_uplift step fee e = (if error_status e = Some ''TOOK_LONG'' then fee + step else fee)"


declare submit_loop.simps [simp del]

text \<open>
  A callback whose first two submissions take too long and whose third succeeds (it
  returns the fee uplift it was given; the state counts its calls), and options allowing
  three attempts with a fee step of 10.
\<close>

definition took_too_long :: thrown_error where
  "took_too_long = \<lparr>error_code = None, error_status = Some ''TOOK_LONG''\<rparr>"

definition slow_ledger_callback :: "int \<Rightarrow> nat \<Rightarrow> (thrown_error + int) \<times> nat" where
  "slow_ledger_callback fee calls =
     (if calls < 2 then Inl took_too_long else Inr fee, Suc calls)"

definition three_attempts :: retry_options where
  "three_attempts = \<lparr>maxRetryAttempts = Some 3, feeUplift = Some 10\<rparr>"


section \<open>HostClient: the checks of register\<close>

text \<open>
  A JavaScript number as the checks see it: a finite value (a rational here: every
  finite double is one), \<open>NaN\<close>, or an infinity.
\<close>

datatype js_number =
  Num rat
| NaN
| PosInfinity
| NegInfinity





















section \<open>EvernodeHook: the configuration and the moment\<close>

text \<open>
  An object of the hook account as \<open>getStates\<close> returns it, with the three fields that
  \<open>getHookStates\<close> reads. Keys and data are hexadecimal text.
\<close>

record ledger_entry =
  LedgerEntryType :: string
  HookStateKey :: string
  HookStateData :: string

text \<open>
  \<open>getHookStates\<close>: the entries of type \<open>HookState\<close>, each as \<open>{ key, data }\<close>
  (a pair here).
\<close>

definition getHookStates :: "ledger_entry list \<Rightarrow> (string \<times> string) list" where
  "getHookStates entries =
     map (\<lambda>s. (HookStateKey s, HookStateData s))
       (filter (\<lambda>s. LedgerEntryType s = ''HookState'') entries)"

text \<open>\<open>getStateData(states, key)\<close>: the data of the first state with the key, if any.\<close>

definition getStateData :: "(string \<times> 'd) list \<Rightarrow> string \<Rightarrow> 'd option" where
  "getStateData states key = map_option snd (find (\<lambda>s. key = fst s) states)"

text \<open>
  \<open>Buffer.from(text, 'hex')\<close>: two hexadecimal digits make a byte; decoding stops at
  the first pair that is not two digits.
\<close>

definition hex_digit :: "char \<Rightarrow> nat option" where
  "hex_digit c =
     (let n = (of_char c :: nat) in
      if 48 \<le> n \<and> n \<le> 57 then Some (n - 48)
      else if 97 \<le> n \<and> n \<le> 102 then Some (n - 87)
      else if 65 \<le> n \<and> n \<le> 70 then Some (n - 55)
      else None)"

fun hex_bytes :: "string \<Rightarrow> nat list" where
  "hex_bytes (a # b # rest) =
     (case (hex_digit a, hex_digit b) of
        (Some h, Some l) \<Rightarrow> (16 * h + l) # hex_bytes rest
      | _ \<Rightarrow> [])"
| "hex_bytes s = []"

text \<open>
  Reading an unsigned big-endian integer of \<open>n\<close> bytes at offset 0; a buffer that is too
  short makes the read throw a \<open>RangeError\<close>.
\<close>

datatype config_error = RangeError

definition readUIntBE :: "nat \<Rightarrow> nat list \<Rightarrow> config_error + nat" where
  "readUIntBE n buf =
     (if length buf < n then Inl RangeError
      else Inr (foldl (\<lambda>acc b. 256 * acc + b) 0 (take n buf)))"

text \<open>\<open>buf.readBigInt64BE(0)\<close>: eight bytes, two's complement.\<close>

definition readBigInt64BE :: "nat list \<Rightarrow> config_error + int" where
  "readBigInt64BE buf =
     (case readUIntBE 8 buf of
        Inl e \<Rightarrow> Inl e
      | Inr u \<Rightarrow> Inr (if u < 2 ^ 63 then int u else int u - 2 ^ 64))"

text \<open>
  \<open>Number(big)\<close> for an unsigned 64-bit value: the nearest double, ties to even. Values
  below \<open>2 ^ 53\<close> are kept as they are.
\<close>

fun bit_length :: "nat \<Rightarrow> nat" where
  "bit_length n = (if n = 0 then 0 else Suc (bit_length (n div 2)))"

definition Number_of_big :: "nat \<Rightarrow> nat" where
  "Number_of_big n =
     (if bit_length n \<le> 53 then n
      else
        (let e = bit_length n - 53; q = n div 2 ^ e; r = n mod 2 ^ e; half = 2 ^ (e - 1)
         in (if r > half \<or> (r = half \<and> odd q) then q + 1 else q) * 2 ^ e))"

declare bit_length.simps [simp del]

text \<open>
  \<open>readUInt(buf, base)\<close> with big-endian order, for the two widths that \<open>getConfig\<close>
  asks for.
\<close>

definition readUInt16 :: "nat list \<Rightarrow> config_error + nat" where
  "readUInt16 buf = readUIntBE 2 buf"

definition readUInt64 :: "nat list \<Rightarrow> config_error + nat" where
  "readUInt64 buf = map_sum (\<lambda>e. e) Number_of_big (readUIntBE 8 buf)"

text \<open>
  The constants that \<open>getConfig\<close> takes from \<open>evernode-common\<close> (the state keys and the
  defaults of \<open>HookStateDefaults\<close>) and \<open>XflHelpers.toString\<close>: the table this class was
  written against and the helper lie outside the verified files, so they are
  parameters.
\<close>

record 'fee hook_constants =
  KEY_HOST_REG_FEE :: string
  KEY_MOMENT_SIZE :: string
  KEY_REDEEM_WINDOW :: string
  KEY_MIN_REDEEM :: string
  KEY_MOMENT_BASE_IDX :: string
  DEFAULT_HOST_REG_FEE :: 'fee
  DEFAULT_MOMENT_SIZE :: nat
  DEFAULT_REDEEM_WINDOW :: nat
  DEFAULT_MIN_REDEEM :: nat
  DEFAULT_MOMENT_BASE_IDX :: nat
  xfl_toString :: "int \<Rightarrow> 'fee"

record 'fee hook_config =
  hostRegFee :: 'fee
  momentSize :: nat
  redeemWindow :: nat
  minRedeem :: nat
  momentBaseIdx :: nat

text \<open>
  The state of an \<open>EvernodeHook\<close> object: \<open>#cachedConfig\<close>, and how many times the object
  has read the states of the hook account from the ledger.
\<close>

record 'fee evernode_hook =
  cachedConfig :: "'fee hook_config option"
  ledger_reads :: nat

text \<open>\<open>buf ? readUInt(buf, ...) : default\<close>\<close>

definition read_or_default ::
  "(nat list \<Rightarrow> config_error + nat) \<Rightarrow> nat list option \<Rightarrow> nat \<Rightarrow> config_error + nat" where
  "read_or_default rd buf dflt = (case buf of None \<Rightarrow> Inr dflt | Some b \<Rightarrow> rd b)"

text \<open>The configuration that \<open>getConfig\<close> decodes from the entries of the hook account.\<close>

definition decode_config ::
  "'fee hook_constants \<Rightarrow> ledger_entry list \<Rightarrow> config_error + 'fee hook_config" where
  "decode_config k entries =
     (let states = map (\<lambda>s. (fst s, hex_bytes (snd s))) (getHookStates entries) in
      case (case getStateData states (KEY_HOST_REG_FEE k) of
              None \<Rightarrow> Inr (DEFAULT_HOST_REG_FEE k)
            | Some buf \<Rightarrow> map_sum (\<lambda>e. e) (xfl_toString k) (readBigInt64BE buf)) of
        Inl e \<Rightarrow> Inl e
      | Inr fee \<Rightarrow>
      (case read_or_default readUInt16 (getStateData states (KEY_MOMENT_SIZE k))
              (DEFAULT_MOMENT_SIZE k) of
        Inl e \<Rightarrow> Inl e
      | Inr msize \<Rightarrow>
      (case read_or_default readUInt16 (getStateData states (KEY_REDEEM_WINDOW k))
              (DEFAULT_REDEEM_WINDOW k) of
        Inl e \<Rightarrow> Inl e
      | Inr window \<Rightarrow>
      (case read_or_default readUInt16 (getStateData states (KEY_MIN_REDEEM k))
              (DEFAULT_MIN_REDEEM k) of
        Inl e \<Rightarrow> Inl e
      | Inr minr \<Rightarrow>
      (case read_or_default readUInt64 (getStateData states (KEY_MOMENT_BASE_IDX k))
              (DEFAULT_MOMENT_BASE_IDX k) of
        Inl e \<Rightarrow> Inl e
      | Inr base \<Rightarrow>
          Inr \<lparr>hostRegFee = fee, momentSize = msize, redeemWindow = window,
               minRedeem = minr, momentBaseIdx = base\<rparr>)))))"

text \<open>
  \<open>getConfig\<close>: read the states from the ledger, decode them, store the configuration
  in \<open>#cachedConfig\<close> and return it. A read that throws leaves the cache as it was.
\<close>

definition getConfig ::
  "'fee hook_constants \<Rightarrow> ledger_entry list \<Rightarrow> 'fee evernode_hook
    \<Rightarrow> (config_error + 'fee hook_config) \<times> 'fee evernode_hook" where
  "getConfig k entries st =
     (let st1 = st\<lparr>ledger_reads := Suc (ledger_reads st)\<rparr> in
      case decode_config k entries of
        Inl e \<Rightarrow> (Inl e, st1)
      | Inr config \<Rightarrow> (Inr config, st1\<lparr>cachedConfig := Some config\<rparr>))"

text \<open>
  The arithmetic of \<open>getMoment\<close> is that of JavaScript numbers, which are IEEE 754
  doubles. A finite double is a rational \<open>m * 2 ^ (e - 52)\<close> with \<open>\<bar>m\<bar> < 2 ^ 53\<close> and
  \<open>- 1022 \<le> e \<le> 1023\<close>. An operation gives the double nearest to its exact result, a
  tie going to the even significand, and an infinity when the rounded size reaches
  \<open>2 ^ 1024\<close>.

  \<open>binary_exponent x\<close> is the \<open>e\<close> with \<open>2 ^ e \<le> \<bar>x\<bar> < 2 ^ (e + 1)\<close>, for \<open>x\<close> other than
  zero: the difference of the bit lengths of numerator and denominator, or one less.
\<close>

definition binary_exponent :: "rat \<Rightarrow> int" where
  "binary_exponent x =
     (let (p, q) = quotient_of \<bar>x\<bar>;
          e0 = int (bit_length (nat p)) - int (bit_length (nat q))
      in if power_int 2 e0 \<le> \<bar>x\<bar> then e0 else e0 - 1)"

text \<open>The nearest integer, a tie going to the even one.\<close>

definition round_half_even :: "rat \<Rightarrow> int" where
  "round_half_even y =
     (let f = \<lfloor>y\<rfloor>; d = y - of_int f
      in if d < 1 / 2 then f else if 1 / 2 < d then f + 1 else if even f then f else f + 1)"

text \<open>
  The double that an exact result \<open>x\<close> is rounded to. The spacing of the doubles around
  \<open>x\<close> is \<open>2 ^ (e - 52)\<close> for the binary exponent \<open>e\<close> of \<open>x\<close>, and \<open>2 ^ - 1074\<close> below
  \<open>2 ^ - 1022\<close>. (The two zeros of IEEE 754 are one value here: they are equal under
  every comparison, and no divisor of this development is a negative zero.)
\<close>

definition to_double :: "rat \<Rightarrow> js_number" where
  "to_double x =
     (if x = 0 then Num 0
      else
        (let e = max (binary_exponent x) (- 1022);
             u = power_int 2 (e - 52);
             r = of_int (round_half_even (x / u)) * u
         in if power_int 2 1024 \<le> \<bar>r\<bar>
            then (if 0 < x then PosInfinity else NegInfinity)
            else Num r))"

text \<open>
  A non-negative integer as the JavaScript number that holds it: the integer itself
  when it is a double (as every integer below \<open>2 ^ 53\<close> and every result of
  \<open>Number_of_big\<close> is), and the nearest double otherwise.
\<close>

definition Number_of_nat :: "nat \<Rightarrow> js_number" where
  "Number_of_nat n = to_double (of_nat n)"

text \<open>\<open>a - b\<close>, \<open>a / b\<close> and \<open>Math.floor(a)\<close> on numbers.\<close>

fun js_minus :: "js_number \<Rightarrow> js_number \<Rightarrow> js_number" where
  "js_minus (Num a) (Num b) = to_double (a - b)"
| "js_minus (Num a) PosInfinity = NegInfinity"
| "js_minus (Num a) NegInfinity = PosInfinity"
| "js_minus PosInfinity (Num b) = PosInfinity"
| "js_minus PosInfinity NegInfinity = PosInfinity"
| "js_minus NegInfinity (Num b) = NegInfinity"
| "js_minus NegInfinity PosInfinity = NegInfinity"
| "js_minus x y = NaN"

fun js_divide :: "js_number \<Rightarrow> js_number \<Rightarrow> js_number" where
  "js_divide (Num a) (Num b) =
     (if b = 0 then (if 0 < a then PosInfinity else if a < 0 then NegInfinity else NaN)
      else to_double (a / b))"
| "js_divide (Num a) PosInfinity = Num 0"
| "js_divide (Num a) NegInfinity = Num 0"
| "js_divide PosInfinity (Num b) = (if 0 \<le> b then PosInfinity else NegInfinity)"
| "js_divide NegInfinity (Num b) = (if 0 \<le> b then NegInfinity else PosInfinity)"
| "js_divide x y = NaN"

fun Math_floor :: "js_number \<Rightarrow> js_number" where
  "Math_floor (Num q) = Num (of_int \<lfloor>q\<rfloor>)"
| "Math_floor x = x"

text \<open>
  \<open>ledgerVersion || this.account.rippleAPI.ledgerVersion\<close>: a missing argument and
  \<open>0\<close> both stand for the ledger version the API holds.
\<close>

definition ledger_version_used :: "nat option \<Rightarrow> nat \<Rightarrow> nat" where
  "ledger_version_used ledgerVersion current =
     (case ledgerVersion of None \<Rightarrow> current | Some lv \<Rightarrow> if lv = 0 then current else lv)"

text \<open>
  \<open>getMoment(ledgerVersion = null)\<close>, with the entries the ledger would give to a read
  and the ledger version of the API at the time of the call:
  \<open>Math.floor((lv - momentBaseIdx) / momentSize)\<close>, each operation on doubles.
\<close>

definition getMoment ::
  "'fee hook_constants \<Rightarrow> ledger_entry list \<Rightarrow> nat \<Rightarrow> nat option \<Rightarrow> 'fee evernode_hook
    \<Rightarrow> (config_error + js_number) \<times> 'fee evernode_hook" where
  "getMoment k entries current ledgerVersion st =
     (case (case cachedConfig st of
              None \<Rightarrow> getConfig k entries st
            | Some config \<Rightarrow> (Inr config, st)) of
        (Inl e, st1) \<Rightarrow> (Inl e, st1)
      | (Inr config, st1) \<Rightarrow>
          (Inr (Math_floor
                  (js_divide
                     (js_minus (Number_of_nat (ledger_version_used ledgerVersion current))
                        (Number_of_nat (momentBaseIdx config)))
                     (Number_of_nat (momentSize config)))),
           st1))"

text \<open>The moment in the words of the claim: the floor of the real quotient.\<close>

definition moment_of :: "nat \<Rightarrow> nat \<Rightarrow> nat \<Rightarrow> int" where
  "moment_of lv B S = \<lfloor>(real lv - real B) / real S\<rfloor>"


text \<open>
  A hook account whose states set the moment size to 1800 ledgers and the moment base
  index to 1000, with constants for the keys (those of the table in the sources where it
  has them) and the defaults, and a hook object that has not read its configuration yet.
\<close>

definition sample_constants :: "string hook_constants" where
  "sample_constants =
     \<lparr>KEY_HOST_REG_FEE = ''4556520100000000000000000000000000000000000000000000000000000003'',
      KEY_MOMENT_SIZE = ''4556520100000000000000000000000000000000000000000000000000000001'',
      KEY_REDEEM_WINDOW = ''4556520100000000000000000000000000000000000000000000000000000005'',
      KEY_MIN_REDEEM = ''4556520100000000000000000000000000000000000000000000000000000006'',
      KEY_MOMENT_BASE_IDX = ''4556523400000000000000000000000000000000000000000000000000000000'',
      DEFAULT_HOST_REG_FEE = ''5'', DEFAULT_MOMENT_SIZE = 72, DEFAULT_REDEEM_WINDOW = 12,
      DEFAULT_MIN_REDEEM = 12, DEFAULT_MOMENT_BASE_IDX = 0,
      xfl_toString = (\<lambda>x. ''xfl'')\<rparr>"

definition sample_entries :: "ledger_entry list" where
  "sample_entries =
     [\<lparr>LedgerEntryType = ''AccountRoot'', HookStateKey = '''', HookStateData = ''''\<rparr>,
      \<lparr>LedgerEntryType = ''HookState'',
       HookStateKey = ''4556520100000000000000000000000000000000000000000000000000000001'',
       HookStateData = ''0708''\<rparr>,
      \<lparr>LedgerEntryType = ''HookState'',
       HookStateKey = ''4556523400000000000000000000000000000000000000000000000000000000'',
       HookStateData = ''00000000000003E8''\<rparr>]"

definition sample_config :: "string hook_config" where
  "sample_config =
     \<lparr>hostRegFee = ''5'', momentSize = 1800, redeemWindow = 12, minRedeem = 12,
      momentBaseIdx = 1000\<rparr>"

definition fresh_hook :: "string evernode_hook" where
  "fresh_hook = \<lparr>cachedConfig = None, ledger_reads = 0\<rparr>"

text \<open>
  A hook account whose states set the moment size to 3 ledgers and the moment base index
  to \<open>2 ^ 60\<close>, and the configuration these states decode to.
\<close>

definition far_base_entries :: "ledger_entry list" where
  "far_base_entries =
     [\<lparr>LedgerEntryType = ''HookState'',
       HookStateKey = ''4556520100000000000000000000000000000000000000000000000000000001'',
       HookStateData = ''0003''\<rparr>,
      \<lparr>LedgerEntryType = ''HookState'',
       HookStateKey = ''4556523400000000000000000000000000000000000000000000000000000000'',
       HookStateData = ''1000000000000000''\<rparr>]"

definition far_base_config :: "string hook_config" where
  "far_base_config =
     \<lparr>hostRegFee = ''5'', momentSize = 3, redeemWindow = 12, minRedeem = 12,
      momentBaseIdx = 1152921504606846976\<rparr>"


section \<open>EvernodeHook: the payment events\<close>

text \<open>
  A memo of an incoming payment as the hook class reads it: \<open>type\<close>, \<open>format\<close> and
  \<open>data\<close>, each possibly absent. An absent or empty \<open>data\<close> is falsy.
\<close>

record memo =
  memo_type :: "string option"
  memo_format :: "string option"
  memo_data :: "string option"

text \<open>
  \<open>tx.Amount\<close>: a text of drops for the native currency, or the object
  \<open>{ currency, issuer, value }\<close> (the only case with \<open>typeof tx.Amount === 'object'\<close>).
\<close>

datatype amount =
  Drops string
| Issued (currency: string) (issuer: string) (amount_value: string)

text \<open>
  The fields of the transaction that \<open>#extractEvernodeHookEvent\<close> reads: \<open>Account\<close>,
  \<open>Destination\<close>, \<open>Amount\<close> and \<open>Memos\<close>.
\<close>

record payment =
  Account :: string
  PaymentDestination :: "string option"
  PaymentAmount :: "amount option"
  PaymentMemos :: "memo list option"

text \<open>A parsed JSON value, and the property access \<open>value.name\<close> on it.\<close>

datatype json =
  JNull
| JBool bool
| JNumber rat
| JString string
| JArray "json list"
| JObject "(string \<times> json) list"

datatype extract_error = SyntaxError | TypeError

text \<open>
  Reading a property of \<open>null\<close> throws a \<open>TypeError\<close>; an object gives the property
  (the last one, where a name is repeated) or \<open>undefined\<close>; the other values have no
  property of this kind.
\<close>

fun property :: "json \<Rightarrow> string \<Rightarrow> extract_error + json option" where
  "property JNull name = Inl TypeError"
| "property (JObject kvs) name = Inr (map_of (rev kvs) name)"
| "property v name = Inr None"

text \<open>
  The constants of \<open>evernode-common\<close> that the method compares with. The table in the
  sources has the values below; it has no \<open>MemoFormats.BINARY\<close> and none of the memo
  types \<open>REDEEM_RESP\<close>, \<open>REFUND\<close>, \<open>AUDIT_REQ\<close>, \<open>AUDIT_SUCCESS\<close>, which are parameters.
\<close>

definition EVR :: string where "EVR = ''EVR''"
definition FORMAT_TEXT :: string where "FORMAT_TEXT = ''text/plain''"
definition FORMAT_JSON :: string where "FORMAT_JSON = ''text/json''"
definition TYPE_REDEEM :: string where "TYPE_REDEEM = ''evnRedeem''"
definition TYPE_REDEEM_REF :: string where "TYPE_REDEEM_REF = ''evnRedeemRef''"
definition TYPE_HOST_REG :: string where "TYPE_HOST_REG = ''evnHostReg''"
definition TYPE_HOST_DEREG :: string where "TYPE_HOST_DEREG = ''evnHostDereg''"

text \<open>
  What the method needs from outside: the missing constants, the address of the hook
  account, the addresses of the registered hosts (\<open>getHosts\<close> decodes them with the
  address codec), and the built-in functions \<open>JSON.parse\<close> (\<open>None\<close> when it throws a
  \<open>SyntaxError\<close>) and \<open>parseInt\<close>.
\<close>

record hook_env =
  FORMAT_BINARY :: string
  TYPE_REDEEM_RESP :: string
  TYPE_REFUND :: string
  TYPE_AUDIT_REQ :: string
  TYPE_AUDIT_SUCCESS :: string
  hook_address :: string
  host_addresses :: "string list"
  JSON_parse :: "string \<Rightarrow> json option"
  parseInt :: "string option \<Rightarrow> js_number"

text \<open>The events, named as in \<open>HookEvents\<close>, each with its data.\<close>

datatype hook_event =
  Reward payment "string option" string
| Redeem payment string "string option" "string option" js_number string
| RedeemError payment string "json option"
| RedeemSuccess payment string string
| RefundRequest payment string
| HostRegistered payment string "string option" "string option" "string option"
| HostDeregistered payment string
| AuditRequest payment string
| AuditSuccess payment string

text \<open>\<open>data.split(';')\<close> and \<open>parts[i]\<close>\<close>

fun split_semicolon :: "string \<Rightarrow> string list" where
  "split_semicolon [] = [[]]"
| "split_semicolon (c # cs) =
     (if c = CHR '';'' then [] # split_semicolon cs
      else (case split_semicolon cs of
              [] \<Rightarrow> [[c]]
            | p # ps \<Rightarrow> (c # p) # ps))"

definition part :: "string list \<Rightarrow> nat \<Rightarrow> string option" where
  "part parts i = (if i < length parts then Some (parts ! i) else None)"

text \<open>A memo's \<open>data\<close> is truthy.\<close>

definition has_data :: "memo \<Rightarrow> bool" where
  "has_data m = (memo_data m \<noteq> None \<and> memo_data m \<noteq> Some [])"

text \<open>
  The first test of the method: an outgoing payment of the hook account, in \<open>EVR\<close>, to a
  registered host.
\<close>

definition reward_payment :: "hook_env \<Rightarrow> payment \<Rightarrow> bool" where
  "reward_payment env tx =
     (Account tx = hook_address env
      \<and> (case PaymentAmount tx of Some (Issued c i v) \<Rightarrow> c = EVR | _ \<Rightarrow> False)
      \<and> (\<exists>h \<in> set (host_addresses env). Some h = PaymentDestination tx))"

text \<open>
  \<open>#extractEvernodeHookEvent(tx)\<close>: the tests in the order of the source. \<open>Inr None\<close>
  is the result \<open>null\<close>.
\<close>

definition extractEvernodeHookEvent ::
  "hook_env \<Rightarrow> payment \<Rightarrow> extract_error + hook_event option" where
  "extractEvernodeHookEvent env tx =
     (if reward_payment env tx then
        Inr (Some (Reward tx (PaymentDestination tx)
                     (case PaymentAmount tx of Some (Issued c i v) \<Rightarrow> v | _ \<Rightarrow> [])))
      else
        (case PaymentMemos tx of
           None \<Rightarrow> Inr None
         | Some [] \<Rightarrow> Inr None
         | Some (m0 # ms) \<Rightarrow>
             if memo_format m0 = Some (FORMAT_BINARY env) \<and> memo_type m0 = Some TYPE_REDEEM
                \<and> has_data m0 then
               (case PaymentAmount tx of
                  None \<Rightarrow> Inl TypeError
                | Some (Drops d) \<Rightarrow>
                    Inr (Some (Redeem tx (Account tx) None None (parseInt env None)
                                 (the (memo_data m0))))
                | Some (Issued c i v) \<Rightarrow>
                    Inr (Some (Redeem tx (Account tx) (Some i) (Some c) (parseInt env (Some v))
                                 (the (memo_data m0)))))
             else if ms \<noteq> [] \<and> memo_format m0 = Some (FORMAT_BINARY env)
                     \<and> memo_type m0 = Some TYPE_REDEEM_REF \<and> has_data m0
                     \<and> memo_type (hd ms) = Some (TYPE_REDEEM_RESP env) \<and> has_data (hd ms) then
               (let redeemTxHash = the (memo_data m0); payload = the (memo_data (hd ms)) in
                if memo_format (hd ms) = Some FORMAT_JSON then
                  (case JSON_parse env payload of
                     None \<Rightarrow> Inl SyntaxError
                   | Some err \<Rightarrow>
                       (case property err ''reason'' of
                          Inl e \<Rightarrow> Inl e
                        | Inr reason \<Rightarrow> Inr (Some (RedeemError tx redeemTxHash reason))))
                else Inr (Some (RedeemSuccess tx redeemTxHash payload)))
             else if memo_format m0 = Some (FORMAT_BINARY env)
                     \<and> memo_type m0 = Some (TYPE_REFUND env) \<and> has_data m0 then
               Inr (Some (RefundRequest tx (the (memo_data m0))))
             else if memo_format m0 = Some FORMAT_TEXT \<and> memo_type m0 = Some TYPE_HOST_REG
                     \<and> has_data m0 then
               (let parts = split_semicolon (the (memo_data m0)) in
                Inr (Some (HostRegistered tx (Account tx) (part parts 0) (part parts 1)
                             (part parts 2))))
             else if memo_type m0 = Some TYPE_HOST_DEREG then
               Inr (Some (HostDeregistered tx (Account tx)))
             else if memo_format m0 = Some (FORMAT_BINARY env)
                     \<and> memo_type m0 = Some (TYPE_AUDIT_REQ env) then
               Inr (Some (AuditRequest tx (Account tx)))
             else if memo_format m0 = Some (FORMAT_BINARY env)
                     \<and> memo_type m0 = Some (TYPE_AUDIT_SUCCESS env) then
               Inr (Some (AuditSuccess tx (Account tx)))
             else Inr None))"


text \<open>
  Sample values: an environment with one registered host (its \<open>JSON.parse\<close> knows the
  one JSON payload used here, \<open>{"reason":"no capacity"}\<close>), the two memos of a redeem
  response, a host's answers to the hook with them, and a payment of the hook account
  to the host, in \<open>EVR\<close>, that carries the same memos.
\<close>

definition error_payload :: string where
  "error_payload =
     [CHR 0x7B, CHR 0x22] @ ''reason'' @ [CHR 0x22, CHR 0x3A, CHR 0x22] @ ''no capacity''
       @ [CHR 0x22, CHR 0x7D]"

definition sample_hook_env :: hook_env where
  "sample_hook_env =
     \<lparr>FORMAT_BINARY = ''binary'', TYPE_REDEEM_RESP = ''evnRedeemResp'',
      TYPE_REFUND = ''evnRefund'', TYPE_AUDIT_REQ = ''evnAuditRequest'',
      TYPE_AUDIT_SUCCESS = ''evnAuditSuccess'', hook_address = ''rHook'',
      host_addresses = [''rHostA''],
      JSON_parse = (\<lambda>s. if s = error_payload
                          then Some (JObject [(''reason'', JString ''no capacity'')])
                          else None),
      parseInt = (\<lambda>s. NaN)\<rparr>"

definition redeem_ref_memo :: memo where
  "redeem_ref_memo =
     \<lparr>memo_type = Some ''evnRedeemRef'', memo_format = Some ''binary'',
      memo_data = Some ''C53E''\<rparr>"

definition instance_memo :: memo where
  "instance_memo =
     \<lparr>memo_type = Some ''evnRedeemResp'', memo_format = Some ''binary'',
      memo_data = Some ''instance info''\<rparr>"

definition error_memo :: memo where
  "error_memo =
     \<lparr>memo_type = Some ''evnRedeemResp'', memo_format = Some ''text/json'',
      memo_data = Some error_payload\<rparr>"

definition host_success_response :: payment where
  "host_success_response =
     \<lparr>Account = ''rHostA'', PaymentDestination = Some ''rHook'',
      PaymentAmount = Some (Drops ''1''),
      PaymentMemos = Some [redeem_ref_memo, instance_memo]\<rparr>"

definition host_error_response :: payment where
  "host_error_response =
     \<lparr>Account = ''rHostA'', PaymentDestination = Some ''rHook'',
      PaymentAmount = Some (Drops ''1''),
      PaymentMemos = Some [redeem_ref_memo, error_memo]\<rparr>"

definition reward_with_redeem_memos :: payment where
  "reward_with_redeem_memos =
     \<lparr>Account = ''rHook'', PaymentDestination = Some ''rHostA'',
      PaymentAmount = Some (Issued ''EVR'' ''rIssuer'' ''2''),
      PaymentMemos = Some [redeem_ref_memo, instance_memo]\<rparr>"


section \<open>XrplApi: joining signed transactions\<close>

text \<open>
  \<open>multiSign(transactions)\<close> hands a non-empty list to \<open>xrpl.multisign\<close> of the xrpl
  library and throws a text for an empty one. The library function is a parameter: it
  throws (\<open>Inl\<close>) or returns the joined transaction.
\<close>

datatype 'e multisign_error =
  EmptyList string
| LibraryError 'e

definition multiSign :: "('t list \<Rightarrow> 'e + 's) \<Rightarrow> 't list \<Rightarrow> 'e multisign_error + 's" where
  "multiSign xrpl_multisign transactions =
     (if length transactions > 0 then
        (case xrpl_multisign transactions of
           Inl e \<Rightarrow> Inl (LibraryError e)
         | Inr signed \<Rightarrow> Inr signed)
      else Inl (EmptyList ''Transaction list is empty for multi-signing.''))"

text \<open>
  A signed copy of a transaction: what was signed, and the signer proofs it carries.
\<close>

record ('b, 'sg) signed_tx =
  tx_body :: 'b
  Signers :: "'sg set"

datatype library_error = NoTransactions

text \<open>
  Modelled from the spec: \<open>xrpl.multisign\<close>, the function of the xrpl library that
  \<open>multiSign\<close> calls; its code is not in the sources. In the spec's words the
  combination takes independently signed copies of the same transaction and gives one
  transaction carrying the union of all signer proofs, and fails on an empty
  collection.
\<close>

definition xrpl_multisign ::
  "('b, 'sg) signed_tx list \<Rightarrow> library_error + ('b, 'sg) signed_tx" where
  "xrpl_multisign transactions =
     (case transactions of
        [] \<Rightarrow> Inl NoTransactions
      | t # ts \<Rightarrow> Inr \<lparr>tx_body = tx_body t, Signers = \<Union> (set (map Signers transactions))\<rparr>)"

text \<open>
  One list is a reordering of another when every element occurs in both the same number
  of times.
\<close>

definition reordering :: "'x list \<Rightarrow> 'x list \<Rightarrow> bool" where
  "reordering xs ys = (\<forall>x. count_list xs x = count_list ys x)"

text \<open>Two copies of one payment, signed by two accounts.\<close>

definition signed_by_a :: "(string, string) signed_tx" where
  "signed_by_a = \<lparr>tx_body = ''Payment 5 EVR'', Signers = {''rSignerA''}\<rparr>"

definition signed_by_b :: "(string, string) signed_tx" where
  "signed_by_b = \<lparr>tx_body = ''Payment 5 EVR'', Signers = {''rSignerB''}\<rparr>"

chapter \<open>Properties\<close>

section \<open>Subscriptions: unsubscribing removes exactly the pair\<close>

lemma unsubscribe_loop_filter:
  "n \<le> length subs \<Longrightarrow>
   unsubscribe_loop a h n subs
     = Some (filter (\<lambda>s. \<not> is_pair a h s) (take n subs) @ drop n subs)"
proof (induction n arbitrary: subs)
  case 0
  show ?case by simp
next
  case (Suc n)
  then have lt: "n < length subs" by simp
  have tk: "take (Suc n) subs = take n subs @ [subs ! n]"
    using lt by (simp add: take_Suc_conv_app_nth)
  show ?case
  proof (cases "is_pair a h (subs ! n)")
    case True
    have len: "n \<le> length (splice1 n subs)"
      using lt by (simp add: splice1_def)
    have "unsubscribe_loop a h (Suc n) subs = unsubscribe_loop a h n (splice1 n subs)"
      using lt True by (simp add: is_pair_def Let_def)
    also have "\<dots> = Some (filter (\<lambda>s. \<not> is_pair a h s) (take n (splice1 n subs))
                         @ drop n (splice1 n subs))"
      by (rule Suc.IH [OF len])
    also have "take n (splice1 n subs) = take n subs"
      using lt by (simp add: splice1_def)
    also have "drop n (splice1 n subs) = drop (Suc n) subs"
      using lt by (simp add: splice1_def)
    finally show ?thesis using True by (simp add: tk)
  next
    case False
    have "unsubscribe_loop a h (Suc n) subs = unsubscribe_loop a h n subs"
      using lt False by (auto simp add: is_pair_def Let_def)
    also have "\<dots> = Some (filter (\<lambda>s. \<not> is_pair a h s) (take n subs) @ drop n subs)"
      using lt by (intro Suc.IH) simp
    also have "drop n subs = subs ! n # drop (Suc n) subs"
      using lt by (simp add: Cons_nth_drop_Suc)
    finally show ?thesis using False by (simp add: tk)
  qed
qed


lemma unsubscribeFromAddress_eq:
  "unsubscribeFromAddress net a h st
     = Inr (net (Unsubscribe [a]),
            st\<lparr>addressSubscriptions :=
                  filter (\<lambda>s. \<not> is_pair a h s) (addressSubscriptions st),
               sent := sent st @ [Unsubscribe [a]]\<rparr>)"
  by (simp add: unsubscribeFromAddress_def unsubscribe_loop_filter handleClientRequest_def)

lemma subscribeToAddress_eq:
  "subscribeToAddress net a h st
     = (net (Subscribe [a]),
        st\<lparr>addressSubscriptions := addressSubscriptions st @ [\<lparr>address = a, handler = h\<rparr>],
           sent := sent st @ [Subscribe [a]]\<rparr>)"
  by (simp add: subscribeToAddress_def handleClientRequest_def)

text \<open>
  Claim C7. Unsubscribing an (address, handler) pair removes exactly the entries of the
  subscription list that are this pair: the new list is the old one without them, every
  other entry (a different handler on the same address too) in its place and order.
  So after subscribing the same pair twice and unsubscribing it once, no entry of the
  pair is left and the list is the one before the two subscriptions, without the pair.
\<close>

theorem unsubscribe_removes_exactly_the_pair:
  "unsubscribeFromAddress net a h st
     = Inr (net (Unsubscribe [a]),
            st\<lparr>addressSubscriptions :=
                  filter (\<lambda>s. \<not> is_pair a h s) (addressSubscriptions st),
               sent := sent st @ [Unsubscribe [a]]\<rparr>)
   \<and> unsubscribeFromAddress net a h
         (snd (subscribeToAddress net a h (snd (subscribeToAddress net a h st))))
     = Inr (net (Unsubscribe [a]),
            st\<lparr>addressSubscriptions :=
                  filter (\<lambda>s. \<not> is_pair a h s) (addressSubscriptions st),
               sent := sent st @ [Subscribe [a], Subscribe [a], Unsubscribe [a]]\<rparr>)
   \<and> filter (is_pair a h) (filter (\<lambda>s. \<not> is_pair a h s) (addressSubscriptions st)) = []"
proof -
  have twice: "unsubscribeFromAddress net a h
         (snd (subscribeToAddress net a h (snd (subscribeToAddress net a h st))))
     = Inr (net (Unsubscribe [a]),
            st\<lparr>addressSubscriptions :=
                  filter (\<lambda>s. \<not> is_pair a h s) (addressSubscriptions st),
               sent := sent st @ [Subscribe [a], Subscribe [a], Unsubscribe [a]]\<rparr>)"
    by (simp add: unsubscribeFromAddress_eq subscribeToAddress_eq is_pair_def)
  have none: "filter (is_pair a h) (filter (\<lambda>s. \<not> is_pair a h s) (addressSubscriptions st)) = []"
    by (simp add: filter_empty_conv)
  show ?thesis
    using unsubscribeFromAddress_eq [of net a h st] twice none by blast
qed

section \<open>The listener: engine-result gating\<close>

text \<open>
  Claim C5. For a validated incoming transaction that matches at least one subscribed
  address, the handlers are called once per matching subscription, in subscription
  order. When the engine result is \<open>tesSUCCESS\<close> each call carries the decoded
  transaction and no error; for any other engine result each call carries no payload
  and the engine's result message. So a call with a payload is made only when the engine
  result is \<open>tesSUCCESS\<close>.
\<close>

theorem listener_engine_result_gating:
  assumes "validated d" and "matches env subs d \<noteq> []"
  shows "(engine_result d = ''tesSUCCESS'' \<longrightarrow>
            on_transaction env subs d
              = map (\<lambda>s. HandlerCall (handler s)
                            (toLowerCase (TransactionType (routed_transaction env subs d)))
                            (Some (decoded_tx env (event_tx env subs d))) None)
                  (matches env subs d))
       \<and> (engine_result d \<noteq> ''tesSUCCESS'' \<longrightarrow>
            on_transaction env subs d
              = map (\<lambda>s. HandlerCall (handler s)
                            (toLowerCase (TransactionType (routed_transaction env subs d)))
                            None (Some (engine_result_message d)))
                  (matches env subs d))
       \<and> (\<forall>c \<in> set (on_transaction env subs d).
            payload c \<noteq> None \<longrightarrow> engine_result d = ''tesSUCCESS'')
       \<and> map callee (on_transaction env subs d) = map handler (matches env subs d)"
  using assms by (auto simp add: on_transaction_def Let_def event_tx_def comp_def)

theorem listener_engine_result_gating_witness:
  "validated failed_payment
   \<and> matches plain_env host_subscriptions failed_payment
       = [\<lparr>address = ''rHostA'', handler = 1\<rparr>, \<lparr>address = ''rHostA'', handler = 3\<rparr>]
   \<and> on_transaction plain_env host_subscriptions failed_payment
       = [HandlerCall 1 ''payment'' None (Some ''Path could not send partial amount.''),
          HandlerCall 3 ''payment'' None (Some ''Path could not send partial amount.'')]"
proof -
  have v: "validated failed_payment"
    by (simp add: failed_payment_def)
  have m: "matches plain_env host_subscriptions failed_payment
       = [\<lparr>address = ''rHostA'', handler = 1\<rparr>, \<lparr>address = ''rHostA'', handler = 3\<rparr>]"
    by (simp add: matches_def routed_transaction_def failed_payment_def host_subscriptions_def)
  have ne: "matches plain_env host_subscriptions failed_payment \<noteq> []"
    by (simp add: m)
  have e: "engine_result failed_payment \<noteq> ''tesSUCCESS''"
    by (simp add: failed_payment_def)
  have n: "toLowerCase (TransactionType (routed_transaction plain_env host_subscriptions failed_payment)) = ''payment''"
    by code_simp
  have msg: "engine_result_message failed_payment = ''Path could not send partial amount.''"
    by (simp add: failed_payment_def)
  from listener_engine_result_gating [OF v ne] e
  have "on_transaction plain_env host_subscriptions failed_payment
          = map (\<lambda>s. HandlerCall (handler s)
                   (toLowerCase (TransactionType (routed_transaction plain_env host_subscriptions failed_payment)))
                   None (Some (engine_result_message failed_payment)))
              (matches plain_env host_subscriptions failed_payment)"
    by blast
  then show ?thesis
    using v m by (simp add: n msg)
qed

section \<open>Reliable submission: the finality wait\<close>

lemma after_effects_Nil: "after_effects [] r = r"
  by (simp add: after_effects_def option.map_id0)

lemma after_effects_append: "after_effects a (after_effects b r) = after_effects (a @ b) r"
  by (simp add: after_effects_def option.map_comp comp_def split_def)

lemma wait_skips_waiting_rounds:
  "list_all (still_waiting E) pre \<Longrightarrow>
   \<exists>eff. waitForFinalTransactionOutcome h (Some E) sr (pre @ ps)
           = after_effects eff (waitForFinalTransactionOutcome h (Some E) sr ps)"
proof (induction pre)
  case Nil
  have "waitForFinalTransactionOutcome h (Some E) sr ps
          = after_effects [] (waitForFinalTransactionOutcome h (Some E) sr ps)"
    by (simp add: after_effects_Nil)
  then show ?case by (metis append_Nil)
next
  case (Cons p pre)
  then obtain eff where eff:
    "waitForFinalTransactionOutcome h (Some E) sr (pre @ ps)
       = after_effects eff (waitForFinalTransactionOutcome h (Some E) sr ps)"
    by auto
  note comp = after_effects_append
  from Cons.prems have w: "still_waiting E p" by simp
  show ?case
  proof (cases p)
    case (IndexFailed e)
    with w show ?thesis by simp
  next
    case (Polled latest lk)
    show ?thesis
    proof (cases lk)
      case (Failed m e)
      with w Polled have "latest \<le> E" "m = Some ''txnNotFound''" by simp_all
      then show ?thesis using Polled Failed eff comp by (auto simp add: not_less [symmetric])
    next
      case (Found info)
      with w Polled have "latest \<le> E" "\<not> info_validated info" by simp_all
      then show ?thesis using Polled Found eff comp by (auto simp add: not_less [symmetric])
    qed
  qed
qed

lemma wait_took_long_decompose:
  "waitForFinalTransactionOutcome h (Some E) sr ps = Some (tr, Inl (ThrownTookLong x)) \<Longrightarrow>
   \<exists>pre latest lk rest. ps = pre @ Polled latest lk # rest
      \<and> list_all (still_waiting E) pre \<and> E < latest
      \<and> x = \<lparr>status = ''TOOK_LONG'', error = took_long_text latest E, provisional = sr\<rparr>"
proof (induction ps arbitrary: tr)
  case Nil
  then show ?case by simp
next
  case (Cons p ps)
  show ?case
  proof (cases "still_waiting E p")
    case True
    then obtain latest lk where p: "p = Polled latest lk" "latest \<le> E"
      by (cases p; cases "case p of Polled a b \<Rightarrow> b") auto
    from True p have step:
      "waitForFinalTransactionOutcome h (Some E) sr (p # ps)
         = after_effects [Sleep LEDGER_CLOSE_TIME, ReqLedgerIndex, ReqTx h]
             (waitForFinalTransactionOutcome h (Some E) sr ps)"
      by (cases lk) (auto simp add: not_less [symmetric])
    with Cons.prems obtain tr' where
      "waitForFinalTransactionOutcome h (Some E) sr ps = Some (tr', Inl (ThrownTookLong x))"
      by (auto simp add: after_effects_def)
    from Cons.IH [OF this] obtain pre latest' lk' rest where
      d: "ps = pre @ Polled latest' lk' # rest" "list_all (still_waiting E) pre" "E < latest'"
         "x = \<lparr>status = ''TOOK_LONG'', error = took_long_text latest' E, provisional = sr\<rparr>"
      by blast
    have "p # ps = (p # pre) @ Polled latest' lk' # rest" using d by simp
    moreover have "list_all (still_waiting E) (p # pre)" using d True by simp
    ultimately show ?thesis using d by blast
  next
    case False
    show ?thesis
    proof (cases p)
      case (IndexFailed e)
      with Cons.prems show ?thesis by simp
    next
      case (Polled latest lk)
      show ?thesis
      proof (cases "E < latest")
        case True
        with Cons.prems Polled
        have "x = \<lparr>status = ''TOOK_LONG'', error = took_long_text latest E, provisional = sr\<rparr>"
          by simp
        moreover have "p # ps = [] @ Polled latest lk # ps" using Polled by simp
        moreover have "list_all (still_waiting E) []" by simp
        ultimately show ?thesis using True by blast
      next
        case nle: False
        with False Polled Cons.prems show ?thesis
          by (cases lk) (auto split: if_splits)
      qed
    qed
  qed
qed


lemma wait_expired_round:
  "E < latest \<Longrightarrow>
   waitForFinalTransactionOutcome h (Some E) sr (Polled latest lk # rest)
     = Some ([Sleep LEDGER_CLOSE_TIME, ReqLedgerIndex],
             Inl (ThrownTookLong \<lparr>status = ''TOOK_LONG'', error = took_long_text latest E,
                                   provisional = sr\<rparr>))"
  by simp

lemma wait_validated_round:
  "latest \<le> E \<Longrightarrow> info_validated info \<Longrightarrow>
   waitForFinalTransactionOutcome h (Some E) sr (Polled latest (Found info) # rest)
     = Some ([Sleep LEDGER_CLOSE_TIME, ReqLedgerIndex, ReqTx h], Inr info)"
  by (simp add: not_less [symmetric])

text \<open>
  Claim C1. For a transaction with expiry ledger index \<open>E\<close>, the finality wait fails with
  the \<open>TOOK_LONG\<close> error exactly when some round reads a latest ledger index above \<open>E\<close>
  while every round before it left the transaction not found as validated (not found, or
  found but not validated, at an index up to \<open>E\<close>). The error thrown has the status
  \<open>TOOK_LONG\<close> and carries the provisional submission result. When a round at an index
  up to \<open>E\<close> finds the transaction validated, all rounds before it having left the loop
  waiting, the wait returns that validated transaction.
\<close>

theorem finality_wait_expiry:
  "((\<exists>tr x. waitForFinalTransactionOutcome h (Some E) sr ps = Some (tr, Inl (ThrownTookLong x)))
      \<longleftrightarrow> (\<exists>pre latest lk rest. ps = pre @ Polled latest lk # rest
             \<and> list_all (still_waiting E) pre \<and> E < latest))
   \<and> (\<forall>tr x. waitForFinalTransactionOutcome h (Some E) sr ps = Some (tr, Inl (ThrownTookLong x))
         \<longrightarrow> status x = ''TOOK_LONG'' \<and> provisional x = sr)
   \<and> (\<forall>pre latest info rest.
         ps = pre @ Polled latest (Found info) # rest \<and> list_all (still_waiting E) pre
           \<and> latest \<le> E \<and> info_validated info
         \<longrightarrow> (\<exists>tr. waitForFinalTransactionOutcome h (Some E) sr ps = Some (tr, Inr info)))"
proof -
  have only_if: "\<exists>pre latest lk rest. ps = pre @ Polled latest lk # rest
             \<and> list_all (still_waiting E) pre \<and> E < latest"
    if "\<exists>tr x. waitForFinalTransactionOutcome h (Some E) sr ps
             = Some (tr, Inl (ThrownTookLong x))"
    using that wait_took_long_decompose [of h E sr ps] by blast
  have "if": "\<exists>tr x. waitForFinalTransactionOutcome h (Some E) sr ps
             = Some (tr, Inl (ThrownTookLong x))"
    if "\<exists>pre latest lk rest. ps = pre @ Polled latest lk # rest
             \<and> list_all (still_waiting E) pre \<and> E < latest"
  proof -
    from that obtain pre latest lk rest where
      d: "ps = pre @ Polled latest lk # rest" "list_all (still_waiting E) pre" "E < latest"
      by blast
    from wait_skips_waiting_rounds [OF d(2), of h sr "Polled latest lk # rest"]
    obtain eff where
      "waitForFinalTransactionOutcome h (Some E) sr ps
         = after_effects eff
             (waitForFinalTransactionOutcome h (Some E) sr (Polled latest lk # rest))"
      using d(1) by auto
    then show ?thesis
      using wait_expired_round [OF d(3), of h sr lk rest] by (simp add: after_effects_def)
  qed
  have carries: "status x = ''TOOK_LONG'' \<and> provisional x = sr"
    if "waitForFinalTransactionOutcome h (Some E) sr ps = Some (tr, Inl (ThrownTookLong x))"
    for tr x
    using wait_took_long_decompose [OF that] by auto
  have succeeds: "\<exists>tr. waitForFinalTransactionOutcome h (Some E) sr ps = Some (tr, Inr info)"
    if a: "ps = pre @ Polled latest (Found info) # rest \<and> list_all (still_waiting E) pre
           \<and> latest \<le> E \<and> info_validated info"
    for pre latest info rest
  proof -
    from wait_skips_waiting_rounds [of E pre h sr "Polled latest (Found info) # rest"] a
    obtain eff where
      "waitForFinalTransactionOutcome h (Some E) sr ps
         = after_effects eff
             (waitForFinalTransactionOutcome h (Some E) sr (Polled latest (Found info) # rest))"
      by auto
    then show ?thesis
      using wait_validated_round [of latest E info h sr rest] a by (simp add: after_effects_def)
  qed
  from only_if "if" have "(\<exists>tr x. waitForFinalTransactionOutcome h (Some E) sr ps
             = Some (tr, Inl (ThrownTookLong x)))
      \<longleftrightarrow> (\<exists>pre latest lk rest. ps = pre @ Polled latest lk # rest
             \<and> list_all (still_waiting E) pre \<and> E < latest)"
    by (rule iffI)
  with carries succeeds show ?thesis by blast
qed

theorem finality_wait_expiry_witness:
  "(\<exists>tr x. waitForFinalTransactionOutcome ''C53E'' (Some 105) provisional_result polls_expiring
              = Some (tr, Inl (ThrownTookLong x))
            \<and> status x = ''TOOK_LONG'' \<and> provisional x = provisional_result)
   \<and> (\<exists>tr. waitForFinalTransactionOutcome ''C53E'' (Some 105) provisional_result polls_validating
              = Some (tr, Inr info_validated_ok))"
proof -
  note inst = finality_wait_expiry [of "''C53E''" 105 provisional_result]
  have e: "\<exists>pre latest lk rest. polls_expiring = pre @ Polled latest lk # rest
             \<and> list_all (still_waiting 105) pre \<and> 105 < latest"
    by (rule exI [of _ "[Polled 104 (Failed (Some ''txnNotFound'') ''not found''),
                        Polled 105 (Found info_unvalidated)]"],
        rule exI [of _ 106],
        rule exI [of _ "Failed (Some ''txnNotFound'') ''not found''"], rule exI [of _ "[]"])
       (simp add: polls_expiring_def info_unvalidated_def)
  have v: "polls_validating
             = [Polled 104 (Failed (Some ''txnNotFound'') ''not found'')]
               @ Polled 105 (Found info_validated_ok) # []
           \<and> list_all (still_waiting 105) [Polled 104 (Failed (Some ''txnNotFound'') ''not found'')]
           \<and> (105::nat) \<le> 105 \<and> info_validated info_validated_ok"
    by (simp add: polls_validating_def info_validated_ok_def)
  from inst [of polls_expiring] e
  have 1: "\<exists>tr x. waitForFinalTransactionOutcome ''C53E'' (Some 105) provisional_result
                     polls_expiring = Some (tr, Inl (ThrownTookLong x))
            \<and> status x = ''TOOK_LONG'' \<and> provisional x = provisional_result"
    by blast
  from inst [of polls_validating] v
  have 2: "\<exists>tr. waitForFinalTransactionOutcome ''C53E'' (Some 105) provisional_result
                   polls_validating = Some (tr, Inr info_validated_ok)"
    by blast
  from 1 2 show ?thesis by blast
qed

section \<open>Reliable submission: a transaction without an expiry index\<close>

text \<open>
  For a transaction without \<open>LastLedgerSequence\<close> both functions send the submission
  request first. What they throw is the rejection of that request, if it is rejected,
  and the text about the missing value otherwise, with no sleep and no ledger request
  after the submission.
\<close>

lemma missing_expiry_thrown_after_submission:
  assumes "LastLedgerSequence tx = None"
  shows "submitAndWait hp tx tx_blob net
           = Some ([ReqSubmit tx_blob],
                   Inl (Thrown (case submit_reply net of
                                  Inl e \<Rightarrow> ThrownClient e
                                | Inr sr \<Rightarrow> ThrownText no_last_ledger_text)))
       \<and> submitMultisignedAndWait hp tx net
           = Some ([ReqSubmitMultisigned (tx\<lparr>SigningPubKey := Some ''''\<rparr>)],
                   Inl (Thrown (case submit_reply net of
                                  Inl e \<Rightarrow> ThrownClient e
                                | Inr sr \<Rightarrow> ThrownText no_last_ledger_text)))"
  using assms
  by (cases "submit_reply net")
     (simp_all add: submitAndWait_def submitMultisignedAndWait_def prepareResponse_def
        after_submit_def)

text \<open>
  Claim C2. A transaction without \<open>LastLedgerSequence\<close> is not refused before it
  reaches the network. The test for the missing value is the first statement of
  \<open>#waitForFinalTransactionOutcome\<close>, which runs only after the submission request has
  been sent and answered: on a connection that accepts the submission, \<open>submitAndWait\<close>
  sends the signed blob and \<open>submitMultisignedAndWait\<close> sends the transaction, and only
  then each throws the text about the missing value.
\<close>

theorem missing_expiry_reaches_network:
  "(submitAndWait sample_helpers tx_without_expiry ''1200'' accepting_ledger
      :: ((string, outbound_tx) effect list \<times> _) option)
     = Some ([ReqSubmit ''1200''], Inl (Thrown (ThrownText no_last_ledger_text)))
   \<and> (submitMultisignedAndWait sample_helpers tx_without_expiry accepting_ledger
        :: ((string, outbound_tx) effect list \<times> _) option)
       = Some ([ReqSubmitMultisigned \<lparr>LastLedgerSequence = None, SigningPubKey = Some ''''\<rparr>],
               Inl (Thrown (ThrownText no_last_ledger_text)))"
  by (simp add: submitAndWait_def submitMultisignedAndWait_def accepting_ledger_def
        prepareResponse_def tx_without_expiry_def after_submit_def)

section \<open>Paginated requests\<close>

lemma page_limit_capped: "page_limit count \<le> MAX_PAGE_LIMIT"
  by (simp add: page_limit_def split: option.splits)

lemma paging_loop_limits_capped:
  "paging_loop count checked marker res answers = Some (rqs, r) \<Longrightarrow>
   list_all (\<lambda>rq. req_limit rq \<le> MAX_PAGE_LIMIT) rqs"
proof (induction answers arbitrary: count checked marker res rqs)
  case Nil
  then show ?case by (simp split: if_splits)
next
  case (Cons answer answers)
  show ?case
  proof (cases "paging_continues count checked marker")
    case False
    with Cons.prems show ?thesis by simp
  next
    case True
    show ?thesis
    proof (cases answer)
      case (Inl e)
      with True Cons.prems show ?thesis by (auto simp add: page_limit_capped)
    next
      case (Inr resp)
      with True Cons.prems obtain rqs' where
        r: "paging_loop (count_after count) True (page_marker resp)
              (res @ (case page_items resp of None \<Rightarrow> [] | Some xs \<Rightarrow> xs)) answers
            = Some (rqs', r)"
        and q: "rqs = \<lparr>req_limit = page_limit count, req_marker = marker\<rparr> # rqs'"
        by (auto simp add: Let_def)
      from Cons.IH [OF r] q show ?thesis by (simp add: page_limit_capped)
    qed
  qed
qed

text \<open>
  Without a caller limit the loop asks as long as the answers carry a marker (an empty
  page with a marker too) and returns the items of all pages in order.
\<close>

lemma paging_loop_follows_markers:
  "list_all (\<lambda>p. page_marker p \<noteq> None) pages \<Longrightarrow> page_marker final = None \<Longrightarrow>
   checked \<longrightarrow> marker \<noteq> None \<Longrightarrow>
   \<exists>rqs. paging_loop None checked marker res (map Inr pages @ Inr final # later)
     = Some (rqs, Inr (res @ concat (map (\<lambda>p. case page_items p of None \<Rightarrow> [] | Some xs \<Rightarrow> xs)
                                     (pages @ [final]))))
     \<and> length rqs = Suc (length pages)"
proof (induction pages arbitrary: checked marker res)
  case Nil
  have stop: "\<not> paging_continues None True (page_marker final)"
    using Nil.prems by (simp add: paging_continues_def)
  have go: "paging_continues None checked marker"
    using Nil.prems by (auto simp add: paging_continues_def truthy_def)
  show ?case
    using stop go by (cases later) (simp_all add: Let_def count_after_def)
next
  case (Cons p pages)
  have go: "paging_continues None checked marker"
    using Cons.prems by (auto simp add: paging_continues_def truthy_def)
  from Cons.prems have "list_all (\<lambda>p. page_marker p \<noteq> None) pages"
    and "True \<longrightarrow> page_marker p \<noteq> None" by simp_all
  from Cons.IH [OF this(1) Cons.prems(2) this(2),
      of "res @ (case page_items p of None \<Rightarrow> [] | Some xs \<Rightarrow> xs)"]
  show ?case
    using go by (auto simp add: Let_def count_after_def)
qed

text \<open>
  Three pages with markers on the first two and no caller limit: three requests, and the
  items of the three pages in order, none twice and none lost. With pages of 400, 400
  and 50 items these are the 850 items.
\<close>

lemma paging_three_pages:
  "requestWithPaging None
     [Inr \<lparr>page_items = Some xs, page_marker = Some m1\<rparr>,
      Inr \<lparr>page_items = Some ys, page_marker = Some m2\<rparr>,
      Inr \<lparr>page_items = Some zs, page_marker = None\<rparr>]
   = Some ([\<lparr>req_limit = 400, req_marker = None\<rparr>, \<lparr>req_limit = 400, req_marker = Some m1\<rparr>,
            \<lparr>req_limit = 400, req_marker = Some m2\<rparr>],
           Inr (xs @ ys @ zs))"
  by (simp add: requestWithPaging_def paging_continues_def truthy_def
        page_limit_def count_after_def MAX_PAGE_LIMIT_def)

text \<open>
  Claim C3. Each page request's limit is at most 400, and without a caller limit the
  loop follows the markers and returns all items in order (the three lemmas above). The
  caller's total count does not end the loop: with \<open>limit: 10\<close> and a first page of ten
  items and a marker, \<open>count\<close> drops to \<open>0\<close>, which the loop test reads like a
  missing limit; a second request with limit 400 follows the marker, and thirteen items
  are returned.
\<close>

theorem paging_count_reached_keeps_asking:
  "requestWithPaging (Some 10) thirteen_objects
     = Some ([\<lparr>req_limit = 10, req_marker = None\<rparr>, \<lparr>req_limit = 400, req_marker = Some ''m1''\<rparr>],
             Inr [1, 2, 3, 4, 5, 6, 7, 8, 9, 10, 11, 12, 13])"
  by (simp add: requestWithPaging_def thirteen_objects_def paging_continues_def truthy_def
        page_limit_def count_after_def MAX_PAGE_LIMIT_def)

section \<open>Submission with retries\<close>

lemma submit_loop_return:
  "attempt \<le> M \<Longrightarrow> callback fee st = (Inr v, st') \<Longrightarrow>
   submit_loop callback M step attempt fee st = ([Attempt fee (Inr v)], Returned v, st')"
  by (subst submit_loop.simps) simp

lemma submit_loop_throw:
  "attempt \<le> M \<Longrightarrow> callback fee st = (Inl e, st') \<Longrightarrow>
   Suc attempt = M \<or> terminal_code e \<Longrightarrow>
   submit_loop callback M step attempt fee st = ([Attempt fee (Inl e)], Threw e, st')"
  by (subst submit_loop.simps) auto

lemma submit_loop_retry:
  "attempt \<le> M \<Longrightarrow> callback fee st = (Inl e, st') \<Longrightarrow>
   Suc attempt \<noteq> M \<Longrightarrow> \<not> terminal_code e \<Longrightarrow>
   submit_loop callback M step (Suc attempt) (next_uplift step fee e) st' = (events, outcome, st'') \<Longrightarrow>
   submit_loop callback M step attempt fee st
     = (Attempt fee (Inl e) # Pause TX_RETRY_INTERVAL # events, outcome, st'')"
  by (subst submit_loop.simps) (simp add: next_uplift_def)

text \<open>The three ways one turn of the loop goes, for a turn that is entered.\<close>

lemma submit_loop_cases:
  assumes "attempt \<le> M"
    and "submit_loop callback M step attempt fee st = (events, outcome, st'')"
  obtains
    (return) v st' where "callback fee st = (Inr v, st')"
      "events = [Attempt fee (Inr v)]" "outcome = Returned v"
  | (throw) e st' where "callback fee st = (Inl e, st')"
      "Suc attempt = M \<or> terminal_code e"
      "events = [Attempt fee (Inl e)]" "outcome = Threw e"
  | (retry) e st' events' where "callback fee st = (Inl e, st')"
      "Suc attempt \<noteq> M" "\<not> terminal_code e"
      "submit_loop callback M step (Suc attempt) (next_uplift step fee e) st'
         = (events', outcome, st'')"
      "events = Attempt fee (Inl e) # Pause TX_RETRY_INTERVAL # events'"
proof (cases "callback fee st")
  case (Pair r st')
  show ?thesis
  proof (cases r)
    case (Inr v)
    with Pair assms submit_loop_return [of attempt M callback fee st v st' step]
    show ?thesis by (intro return [of v st']) auto
  next
    case (Inl e)
    show ?thesis
    proof (cases "Suc attempt = M \<or> terminal_code e")
      case True
      with Pair Inl assms submit_loop_throw [of attempt M callback fee st e st' step]
      show ?thesis by (intro throw [of e st']) auto
    next
      case False
      obtain events' outcome' st3 where
        rec: "submit_loop callback M step (Suc attempt) (next_uplift step fee e) st'
                = (events', outcome', st3)"
        by (metis prod_cases3)
      from False Pair Inl assms(1) submit_loop_retry [OF assms(1) _ _ _ rec]
      have "submit_loop callback M step attempt fee st
              = (Attempt fee (Inl e) # Pause TX_RETRY_INTERVAL # events', outcome', st3)"
        by simp
      with assms(2) rec False Pair Inl show ?thesis
        by (intro retry [of e st' events']) auto
    qed
  qed
qed


lemma submit_loop_first:
  assumes "attempt \<le> M"
    and "submit_loop callback M step attempt fee st = (events, outcome, st'')"
  shows "\<exists>r rest. events = Attempt fee r # rest"
  using assms by (cases rule: submit_loop_cases) auto

lemma submit_loop_bounded:
  "attempt < M \<Longrightarrow>
   submit_loop callback M step attempt fee st = (events, outcome, st'') \<Longrightarrow>
   attempts events \<le> M - attempt \<and> outcome \<noteq> ReturnedUndefined"
proof (induction "M - attempt" arbitrary: attempt fee st events)
  case 0
  then show ?case by simp
next
  case (Suc k)
  from Suc.prems have le: "attempt \<le> M" by simp
  from le Suc.prems(2) show ?case
  proof (cases rule: submit_loop_cases)
    case (return v st')
    with Suc.prems show ?thesis by (simp add: attempts_def)
  next
    case (throw e st')
    with Suc.prems show ?thesis by (simp add: attempts_def)
  next
    case (retry e st' events')
    from retry(2) Suc.prems(1) have lt: "Suc attempt < M" by simp
    from Suc.hyps(2) have k: "k = M - Suc attempt" by simp
    from Suc.hyps(1) [OF k lt retry(4)]
    have "attempts events' \<le> M - Suc attempt" and "outcome \<noteq> ReturnedUndefined"
      by simp_all
    with retry(5) lt show ?thesis by (simp add: attempts_def)
  qed
qed

lemma submit_loop_terminal:
  "attempt < M \<Longrightarrow>
   submit_loop callback M step attempt fee st = (events, outcome, st'') \<Longrightarrow>
   events = pre @ Attempt f (Inl e) # suf \<Longrightarrow> terminal_code e \<Longrightarrow>
   suf = [] \<and> outcome = Threw e"
proof (induction "M - attempt" arbitrary: attempt fee st events pre)
  case 0
  then show ?case by simp
next
  case (Suc k)
  from Suc.prems have le: "attempt \<le> M" by simp
  from le Suc.prems(2) show ?case
  proof (cases rule: submit_loop_cases)
    case (return v st')
    with Suc.prems(3) show ?thesis by (auto simp add: Cons_eq_append_conv)
  next
    case (throw e0 st')
    with Suc.prems(3) show ?thesis by (auto simp add: Cons_eq_append_conv)
  next
    case (retry e0 st' events')
    from retry(2) Suc.prems(1) have lt: "Suc attempt < M" by simp
    from Suc.hyps(2) have k: "k = M - Suc attempt" by simp
    from retry(5) Suc.prems(3)
    have "Attempt fee (Inl e0) # Pause TX_RETRY_INTERVAL # events' = pre @ Attempt f (Inl e) # suf"
      by simp
    then consider (here) "pre = []" "e = e0"
      | (later) pre2 where "pre = Attempt fee (Inl e0) # Pause TX_RETRY_INTERVAL # pre2"
          "events' = pre2 @ Attempt f (Inl e) # suf"
      by (auto simp add: Cons_eq_append_conv)
    then show ?thesis
    proof cases
      case here
      with retry(3) Suc.prems(4) show ?thesis by simp
    next
      case later
      from Suc.hyps(1) [OF k lt retry(4) later(2) Suc.prems(4)] show ?thesis .
    qed
  qed
qed

lemma submit_loop_retries:
  "attempt < M \<Longrightarrow>
   submit_loop callback M step attempt fee st = (events, outcome, st'') \<Longrightarrow>
   events = pre @ Attempt f (Inl e) # suf \<Longrightarrow> \<not> terminal_code e \<Longrightarrow>
   Suc (attempt + attempts pre) < M \<Longrightarrow>
   \<exists>r suf'. suf = Pause TX_RETRY_INTERVAL # Attempt (next_uplift step f e) r # suf'"
proof (induction "M - attempt" arbitrary: attempt fee st events pre)
  case 0
  then show ?case by simp
next
  case (Suc k)
  from Suc.prems have le: "attempt \<le> M" by simp
  from le Suc.prems(2) show ?case
  proof (cases rule: submit_loop_cases)
    case (return v st')
    with Suc.prems(3) show ?thesis by (auto simp add: Cons_eq_append_conv)
  next
    case (throw e0 st')
    with Suc.prems(3) have "pre = []" "e = e0"
      by (auto simp add: Cons_eq_append_conv)
    with throw(2) Suc.prems(4,5) show ?thesis by (simp add: attempts_def)
  next
    case (retry e0 st' events')
    from retry(2) Suc.prems(1) have lt: "Suc attempt < M" by simp
    from Suc.hyps(2) have k: "k = M - Suc attempt" by simp
    from retry(5) Suc.prems(3)
    have "Attempt fee (Inl e0) # Pause TX_RETRY_INTERVAL # events' = pre @ Attempt f (Inl e) # suf"
      by simp
    then consider (here) "pre = []" "e = e0" "f = fee" "suf = Pause TX_RETRY_INTERVAL # events'"
      | (later) pre2 where "pre = Attempt fee (Inl e0) # Pause TX_RETRY_INTERVAL # pre2"
          "events' = pre2 @ Attempt f (Inl e) # suf"
      by (auto simp add: Cons_eq_append_conv)
    then show ?thesis
    proof cases
      case here
      from lt have "Suc attempt \<le> M" by simp
      from submit_loop_first [OF this retry(4)] here show ?thesis by auto
    next
      case later
      from later(1) Suc.prems(5) have "Suc (Suc attempt + attempts pre2) < M"
        by (simp add: attempts_def)
      from Suc.hyps(1) [OF k lt retry(4) later(2) Suc.prems(4) this] show ?thesis .
    qed
  qed
qed

lemma max_attempts_positive: "0 < max_attempts options"
  by (simp add: max_attempts_def split: option.splits)

text \<open>
  Claim C4. In every run of the retry wrapper the callback is called at most
  \<open>maxRetryAttempts || 1\<close> times, the first time with fee uplift 0. A failure whose code
  is \<open>tecDUPLICATE\<close>, \<open>tefPAST_SEQ\<close> or \<open>tefALREADY\<close> ends the run: nothing follows it and
  the wrapper throws that error. Any other failure of a call that is not the last
  allowed one is followed by a pause of \<open>TX_RETRY_INTERVAL\<close> and the next call, whose
  fee uplift is raised by \<open>feeUplift || 0\<close> when the failure's status is \<open>TOOK_LONG\<close> and
  unchanged otherwise.
\<close>

theorem submit_with_retry_policy:
  assumes "submitWithRetry callback options st = (events, outcome, st')"
  shows "attempts events \<le> max_attempts options
       \<and> (\<forall>pre f e suf. events = pre @ Attempt f (Inl e) # suf \<and> terminal_code e
             \<longrightarrow> suf = [] \<and> outcome = Threw e)
       \<and> (\<forall>pre f e suf. events = pre @ Attempt f (Inl e) # suf \<and> \<not> terminal_code e
               \<and> Suc (attempts pre) < max_attempts options
             \<longrightarrow> (\<exists>r suf'. suf = Pause TX_RETRY_INTERVAL
                          # Attempt (if error_status e = Some ''TOOK_LONG''
                                     then f + uplift_step options else f) r
                          # suf'))
       \<and> (\<exists>r rest. events = Attempt 0 r # rest)"
proof -
  from assms have run:
    "submit_loop callback (max_attempts options) (uplift_step options) 0 0 st
       = (events, outcome, st')"
    by (simp add: submitWithRetry_def)
  note pos = max_attempts_positive [of options]
  have a: "attempts events \<le> max_attempts options"
    using submit_loop_bounded [OF pos run] by simp
  have b: "suf = [] \<and> outcome = Threw e"
    if "events = pre @ Attempt f (Inl e) # suf \<and> terminal_code e" for pre f e suf
    using submit_loop_terminal [OF pos run, of pre f e suf] that by simp
  have c: "\<exists>r suf'. suf = Pause TX_RETRY_INTERVAL
                          # Attempt (if error_status e = Some ''TOOK_LONG''
                                     then f + uplift_step options else f) r
                          # suf'"
    if "events = pre @ Attempt f (Inl e) # suf \<and> \<not> terminal_code e
               \<and> Suc (attempts pre) < max_attempts options" for pre f e suf
    using submit_loop_retries [OF pos run, of pre f e suf] that
    by (simp add: next_uplift_def)
  have d: "\<exists>r rest. events = Attempt 0 r # rest"
    using submit_loop_first [OF _ run] by simp
  from a b c d show ?thesis by blast
qed

theorem submit_with_retry_policy_witness:
  "submitWithRetry slow_ledger_callback three_attempts 0
     = ([Attempt 0 (Inl took_too_long), Pause 3000, Attempt 10 (Inl took_too_long), Pause 3000,
         Attempt 20 (Inr 20)], Returned 20, 3)
   \<and> attempts [Attempt 0 (Inl took_too_long), Pause 3000, Attempt 10 (Inl took_too_long),
         Pause 3000, Attempt 20 (Inr (20::int))] \<le> max_attempts three_attempts
   \<and> (\<exists>r suf'. [Pause 3000, Attempt 10 (Inl took_too_long), Pause 3000, Attempt 20 (Inr (20::int))]
         = Pause TX_RETRY_INTERVAL # Attempt (0 + uplift_step three_attempts) r # suf')"
proof -
  have run: "submitWithRetry slow_ledger_callback three_attempts 0
     = ([Attempt 0 (Inl took_too_long), Pause 3000, Attempt 10 (Inl took_too_long), Pause 3000,
         Attempt 20 (Inr 20)], Returned 20, 3)"
    by (simp add: submitWithRetry_def submit_loop.simps slow_ledger_callback_def
          three_attempts_def max_attempts_def uplift_step_def took_too_long_def
          terminal_code_def TX_RETRY_INTERVAL_def numeral_3_eq_3)
  note policy = submit_with_retry_policy [OF run]
  have first: "[Attempt 0 (Inl took_too_long), Pause 3000, Attempt 10 (Inl took_too_long),
         Pause 3000, Attempt 20 (Inr (20::int))]
       = [] @ Attempt 0 (Inl took_too_long)
           # [Pause 3000, Attempt 10 (Inl took_too_long), Pause 3000, Attempt 20 (Inr 20)]
     \<and> \<not> terminal_code took_too_long
     \<and> Suc (attempts ([] :: (thrown_error, int) retry_event list)) < max_attempts three_attempts"
    by (simp add: terminal_code_def took_too_long_def attempts_def max_attempts_def
          three_attempts_def)
  from policy first
  have "\<exists>r suf'. [Pause 3000, Attempt 10 (Inl took_too_long), Pause 3000, Attempt 20 (Inr (20::int))]
         = Pause TX_RETRY_INTERVAL
             # Attempt (if error_status took_too_long = Some ''TOOK_LONG''
                        then 0 + uplift_step three_attempts else 0) r # suf'"
    by blast
  then have "\<exists>r suf'. [Pause 3000, Attempt 10 (Inl took_too_long), Pause 3000, Attempt 20 (Inr (20::int))]
         = Pause TX_RETRY_INTERVAL # Attempt (0 + uplift_step three_attempts) r # suf'"
    by (simp add: took_too_long_def)
  with policy run show ?thesis by blast
qed

section \<open>The checks of register\<close>








section \<open>The moment and the cached configuration\<close>

subsection \<open>Bit lengths and binary exponents\<close>

lemma bit_length_0: "bit_length 0 = 0"
  by (subst bit_length.simps) simp

lemma bit_length_pos: "0 < n \<Longrightarrow> bit_length n = Suc (bit_length (n div 2))"
  by (subst bit_length.simps) simp

lemma bit_length_bounds: "0 < n \<Longrightarrow> 2 ^ (bit_length n - 1) \<le> n \<and> n < 2 ^ bit_length n"
proof (induction n rule: less_induct)
  case (less n)
  note bl = bit_length_pos [OF less.prems]
  show ?case
  proof (cases "n div 2 = 0")
    case True
    with less.prems have n1: "n = 1" by (simp add: div_eq_0_iff) 
    show ?thesis unfolding bl using n1 by (simp add: bit_length_0)
  next
    case False
    then have pos2: "0 < n div 2" by simp
    have lt: "n div 2 < n" using less.prems by simp
    from less.IH [OF lt pos2]
    have ih: "2 ^ (bit_length (n div 2) - 1) \<le> n div 2" "n div 2 < 2 ^ bit_length (n div 2)"
      by simp_all
    have pos: "0 < bit_length (n div 2)" using bit_length_pos [OF pos2] by simp
    from ih(1) have a: "2 * 2 ^ (bit_length (n div 2) - 1) \<le> n" by arith
    have b: "2 * (2::nat) ^ (bit_length (n div 2) - 1) = 2 ^ bit_length (n div 2)"
      using pos by (cases "bit_length (n div 2)") simp_all
    from ih(2) have c: "n < 2 * 2 ^ bit_length (n div 2)" by arith
    from a b c show ?thesis unfolding bl by simp
  qed
qed


lemma bit_length_unique:
  assumes "0 < k" "2 ^ (k - 1) \<le> n" "n < 2 ^ k"
  shows "bit_length n = k"
proof -
  from assms(2) have n: "0 < n" by (metis gr0I not_le zero_less_numeral zero_less_power)
  from bit_length_bounds [OF n]
  have b: "2 ^ (bit_length n - 1) \<le> n" "n < 2 ^ bit_length n" by simp_all
  have bpos: "0 < bit_length n" using bit_length_pos [OF n] by simp
  have "\<not> bit_length n < k"
  proof
    assume "bit_length n < k"
    then have "bit_length n \<le> k - 1" by simp
    then have "(2::nat) ^ bit_length n \<le> 2 ^ (k - 1)" by (intro power_increasing) simp_all
    with b(2) assms(2) show False by linarith
  qed
  moreover have "\<not> k < bit_length n"
  proof
    assume "k < bit_length n"
    then have "k \<le> bit_length n - 1" by simp
    then have "(2::nat) ^ k \<le> 2 ^ (bit_length n - 1)" by (intro power_increasing) simp_all
    with b(1) assms(3) show False by linarith
  qed
  ultimately show ?thesis by simp
qed

lemma binary_exponent_bounds:
  assumes "x \<noteq> 0"
  shows "power_int 2 (binary_exponent x) \<le> \<bar>x\<bar>"
    and "\<bar>x\<bar> < power_int 2 (binary_exponent x + 1)"
proof -
  obtain p q where pq: "quotient_of \<bar>x\<bar> = (p, q)" by (cases "quotient_of \<bar>x\<bar>")
  then have q: "0 < q" and x: "\<bar>x\<bar> = of_int p / of_int q"
    using quotient_of_denom_pos [OF pq] quotient_of_div [OF pq] by simp_all
  have "0 < \<bar>x\<bar>" using assms by simp
  with q x have p: "0 < p" by (simp add: zero_less_divide_iff)
  define bp where "bp = bit_length (nat p)"
  define bq where "bq = bit_length (nat q)"
  from p bit_length_bounds [of "nat p"]
  have pl: "2 ^ (bp - 1) \<le> nat p" and pu: "nat p < 2 ^ bp"
    unfolding bp_def by auto
  from q bit_length_bounds [of "nat q"]
  have ql: "2 ^ (bq - 1) \<le> nat q" and qu: "nat q < 2 ^ bq"
    unfolding bq_def by auto
  have bp0: "0 < bp" unfolding bp_def using bit_length_pos [of "nat p"] p by simp
  have bq0: "0 < bq" unfolding bq_def using bit_length_pos [of "nat q"] q by simp
  have nat_le: "(2::rat) ^ m \<le> of_int z" if "2 ^ m \<le> nat z" "0 < z" for m z
  proof -
    from that have "(2::int) ^ m \<le> z" by (simp add: le_nat_iff)
    then have "of_int ((2::int) ^ m) \<le> (of_int z :: rat)" by (simp only: of_int_le_iff)
    then show ?thesis by simp
  qed
  have nat_less: "(of_int z :: rat) < 2 ^ m" if "nat z < 2 ^ m" "0 < z" for m z
  proof -
    from that have "z < (2::int) ^ m" by (simp add: nat_less_iff)
    then have "(of_int z :: rat) < of_int ((2::int) ^ m)" by (simp only: of_int_less_iff)
    then show ?thesis by simp
  qed
  note pr = nat_le [OF pl p] and pru = nat_less [OF pu p]
    and qrl = nat_le [OF ql q] and qr = nat_less [OF qu q]
  have qpos: "(0::rat) < of_int q" using q by simp
  have ppos: "(0::rat) < of_int p" using p by simp
  have low: "power_int 2 (int bp - int bq - 1) \<le> \<bar>x\<bar>"
  proof -
    have "power_int (2::rat) (int (bp - 1) - int bq)
            = power_int 2 (int (bp - 1)) / power_int 2 (int bq)"
      by (rule power_int_diff) simp
    moreover have "int bp - int bq - 1 = int (bp - 1) - int bq" using bp0 by simp
    ultimately have "power_int 2 (int bp - int bq - 1) = (2::rat) ^ (bp - 1) / 2 ^ bq"
      by (simp only: power_int_of_nat)
    also have "\<dots> \<le> of_int p / of_int q"
      using pr qr qpos ppos by (intro frac_le) simp_all
    finally show ?thesis using x by simp
  qed
  have up: "\<bar>x\<bar> < power_int 2 (int bp - int bq + 1)"
  proof -
    have "power_int (2::rat) (int bp - int (bq - 1))
            = power_int 2 (int bp) / power_int 2 (int (bq - 1))"
      by (rule power_int_diff) simp
    moreover have "int bp - int bq + 1 = int bp - int (bq - 1)" using bq0 by simp
    ultimately have e: "power_int 2 (int bp - int bq + 1) = (2::rat) ^ bp / 2 ^ (bq - 1)"
      by (simp only: power_int_of_nat)
    have "of_int p / of_int q < (2::rat) ^ bp / 2 ^ (bq - 1)"
      using pru qrl qpos ppos by (intro frac_less) simp_all
    with e x show ?thesis by simp
  qed
  show "power_int 2 (binary_exponent x) \<le> \<bar>x\<bar>"
  proof (cases "power_int 2 (int bp - int bq) \<le> \<bar>x\<bar>")
    case True
    then show ?thesis by (simp add: binary_exponent_def pq bp_def bq_def Let_def)
  next
    case False
    then have "binary_exponent x = int bp - int bq - 1"
      by (simp add: binary_exponent_def pq bp_def bq_def Let_def)
    with low show ?thesis by simp
  qed
  show "\<bar>x\<bar> < power_int 2 (binary_exponent x + 1)"
  proof (cases "power_int 2 (int bp - int bq) \<le> \<bar>x\<bar>")
    case True
    then have "binary_exponent x = int bp - int bq"
      by (simp add: binary_exponent_def pq bp_def bq_def Let_def)
    with up show ?thesis by simp
  next
    case False
    then have "binary_exponent x = int bp - int bq - 1"
      by (simp add: binary_exponent_def pq bp_def bq_def Let_def)
    with False show ?thesis by simp
  qed
qed

lemma binary_exponent_unique:
  assumes "power_int 2 e \<le> \<bar>x\<bar>" "\<bar>x\<bar> < power_int 2 (e + 1)"
  shows "binary_exponent x = e"
proof -
  have "(0::rat) < power_int 2 e" by simp
  from this assms(1) have "0 < \<bar>x\<bar>" by (rule less_le_trans)
  then have nz: "x \<noteq> 0" by simp
  note b = binary_exponent_bounds [OF nz]
  have "\<not> binary_exponent x < e"
  proof
    assume "binary_exponent x < e"
    then have "binary_exponent x + 1 \<le> e" by simp
    then have "power_int (2::rat) (binary_exponent x + 1) \<le> power_int 2 e"
      by (intro power_int_increasing) simp_all
    with b(2) assms(1) show False by simp
  qed
  moreover have "\<not> e < binary_exponent x"
  proof
    assume "e < binary_exponent x"
    then have "e + 1 \<le> binary_exponent x" by simp
    then have "power_int (2::rat) (e + 1) \<le> power_int 2 (binary_exponent x)"
      by (intro power_int_increasing) simp_all
    with b(1) assms(2) show False by simp
  qed
  ultimately show ?thesis by simp
qed


subsection \<open>Rounding to a double\<close>

lemma round_half_even_of_int: "round_half_even (of_int m) = m"
  by (simp add: round_half_even_def)

lemma round_half_even_ge: "of_int K \<le> y \<Longrightarrow> K \<le> round_half_even y"
proof -
  assume "of_int K \<le> y"
  then have "K \<le> \<lfloor>y\<rfloor>" by (simp add: le_floor_iff)
  then show ?thesis by (simp add: round_half_even_def Let_def)
qed

lemma round_half_even_less: "y < of_int M - 1 / 2 \<Longrightarrow> round_half_even y < M"
proof -
  assume y: "y < of_int M - 1 / 2"
  have f: "of_int \<lfloor>y\<rfloor> \<le> y" by simp
  show ?thesis
  proof (cases "y - of_int \<lfloor>y\<rfloor> < 1 / 2")
    case True
    then have "round_half_even y = \<lfloor>y\<rfloor>" by (simp add: round_half_even_def Let_def)
    moreover from f y have "(of_int \<lfloor>y\<rfloor> :: rat) < of_int M" by linarith
    then have "\<lfloor>y\<rfloor> < M" by (simp only: of_int_less_iff)
    ultimately show ?thesis by simp
  next
    case False
    then have "of_int \<lfloor>y\<rfloor> + 1 / 2 \<le> y" by linarith
    with y have "(of_int \<lfloor>y\<rfloor> :: rat) + 1 < of_int M" by linarith
    then have "(of_int (\<lfloor>y\<rfloor> + 1) :: rat) < of_int M" by simp
    then have "\<lfloor>y\<rfloor> + 1 < M" by (simp only: of_int_less_iff)
    moreover have "round_half_even y \<le> \<lfloor>y\<rfloor> + 1" by (simp add: round_half_even_def Let_def)
    ultimately show ?thesis by linarith
  qed
qed

lemma binary_exponent_le_52:
  assumes "x \<noteq> 0" "\<bar>x\<bar> < 2 ^ 53"
  shows "binary_exponent x \<le> 52"
proof (rule ccontr)
  assume "\<not> binary_exponent x \<le> 52"
  then have "53 \<le> binary_exponent x" by simp
  then have "power_int (2::rat) 53 \<le> power_int 2 (binary_exponent x)"
    by (intro power_int_increasing) simp_all
  also have "\<dots> \<le> \<bar>x\<bar>" by (rule binary_exponent_bounds(1) [OF assms(1)])
  finally have "(2::rat) ^ 53 \<le> \<bar>x\<bar>" by simp
  with assms(2) show False by linarith
qed

text \<open>The unit in the last place is the inverse of a power of two up to exponent 52.\<close>

lemma to_double_scaled:
  assumes "x \<noteq> 0" and "max (binary_exponent x) (- 1022) \<le> 52"
    and "N = (2::nat) ^ nat (52 - max (binary_exponent x) (- 1022))"
    and "r = of_int (round_half_even (x * of_nat N)) / of_nat N"
    and "\<bar>r\<bar> < 2 ^ 54"
  shows "to_double x = Num r"
proof -
  define e where "e = max (binary_exponent x) (- 1022)"
  have "power_int (2::rat) (e - 52) = power_int 2 (- (52 - e))" by simp
  also have "\<dots> = inverse (power_int 2 (52 - e))" by (rule power_int_minus)
  also have "power_int (2::rat) (52 - e) = 2 ^ nat (52 - e)"
    using assms(2) unfolding e_def by (intro power_int_nonneg_exp) simp
  finally have u: "power_int (2::rat) (e - 52) = inverse (of_nat N)"
    using assms(3) unfolding e_def by simp
  have "(2::rat) ^ 54 = power_int 2 54" by simp
  also have "\<dots> \<le> power_int 2 1024" by (intro power_int_increasing) simp_all
  finally have "\<bar>r\<bar> < power_int 2 1024" using assms(5) by linarith
  then have big: "\<not> power_int 2 1024 \<le> \<bar>r\<bar>" by simp
  have "x / power_int 2 (e - 52) = x * of_nat N" unfolding u by (simp add: field_simps)
  moreover have "of_int (round_half_even (x * of_nat N)) * power_int (2::rat) (e - 52) = r"
    unfolding u assms(4) by (simp add: field_simps)
  ultimately show ?thesis
    using assms(1) big unfolding to_double_def e_def [symmetric] Let_def by simp
qed

lemma to_double_of_int:
  assumes "\<bar>n\<bar> < 2 ^ 53"
  shows "to_double (of_int n) = Num (of_int n)"
proof (cases "n = 0")
  case True
  then show ?thesis by (simp add: to_double_def)
next
  case False
  define x :: rat where "x = of_int n"
  have nz: "x \<noteq> 0" using False by (simp add: x_def)
  have "\<bar>x\<bar> = of_int \<bar>n\<bar>" by (simp add: x_def)
  also have "\<dots> < of_int (2 ^ 53)" using assms by (simp only: of_int_less_iff)
  finally have ax: "\<bar>x\<bar> < 2 ^ 53" by simp
  have e: "max (binary_exponent x) (- 1022) \<le> 52"
    using binary_exponent_le_52 [OF nz ax] by simp
  define N where "N = (2::nat) ^ nat (52 - max (binary_exponent x) (- 1022))"
  have Npos: "0 < N" by (simp add: N_def)
  have "x * of_nat N = of_int (n * int N)" by (simp add: x_def)
  then have "round_half_even (x * of_nat N) = n * int N"
    by (simp only: round_half_even_of_int)
  then have r: "x = of_int (round_half_even (x * of_nat N)) / of_nat N"
    using Npos by (simp add: x_def)
  have "\<bar>x\<bar> < 2 ^ 54" using ax by simp
  from to_double_scaled [OF nz e N_def r this] show ?thesis by (simp add: x_def)
qed


lemma round_half_even_nearest:
  assumes "of_int m - 1 / 2 < y" "y < of_int m + 1 / 2"
  shows "round_half_even y = m"
proof -
  have "of_int m \<le> y \<or> y < of_int m" by linarith
  then show ?thesis
  proof
    assume le: "of_int m \<le> y"
    have f: "\<lfloor>y\<rfloor> = m" using le assms(2) by (intro floor_unique) linarith+
    show ?thesis unfolding round_half_even_def Let_def f using assms(2) by simp
  next
    assume lt: "y < of_int m"
    have f: "\<lfloor>y\<rfloor> = m - 1" using lt assms(1) by (intro floor_unique) simp_all
    show ?thesis unfolding round_half_even_def Let_def f using assms(1) by simp
  qed
qed

lemma to_double_eval:
  assumes "power_int 2 e \<le> \<bar>x\<bar>" "\<bar>x\<bar> < power_int 2 (e + 1)" "- 1022 \<le> e"
    and "round_half_even (x / power_int 2 (e - 52)) = m"
    and "\<bar>of_int m * power_int 2 (e - 52)\<bar> < (2 ^ 1024 :: rat)"
  shows "to_double x = Num (of_int m * power_int 2 (e - 52))"
proof -
  have "(0::rat) < power_int 2 e" by simp
  with assms(1) have nz: "x \<noteq> 0" by linarith
  have be: "binary_exponent x = e" by (rule binary_exponent_unique [OF assms(1,2)])
  have mx: "max e (- 1022) = e" using assms(3) by simp
  have "\<not> (2 ^ 1024 :: rat) \<le> \<bar>of_int m * power_int 2 (e - 52)\<bar>" using assms(5) by linarith
  then show ?thesis
    unfolding to_double_def be Let_def mx assms(4) using nz by (simp only: if_False power_int_numeral)
qed


subsection \<open>The floor of a rounded quotient\<close>

text \<open>
  For integers below \<open>2 ^ 53\<close> in size the quotient is rounded by less than its distance
  to the next integer above, and never below the integer under it: the floor of the double
  is the floor of the exact quotient.
\<close>

lemma to_double_quotient_floor:
  fixes a :: int and b :: nat
  assumes b: "0 < b" "b < 2 ^ 53" and a: "\<bar>a\<bar> < 2 ^ 53"
  shows "\<exists>r. to_double (of_int a / of_nat b) = Num r \<and> \<lfloor>r\<rfloor> = a div int b"
proof (cases "a = 0")
  case True
  then show ?thesis by (simp add: to_double_def)
next
  case False
  define x :: rat where "x = of_int a / of_nat b"
  define k where "k = a div int b"
  have bpos: "(0::rat) < of_nat b" using b(1) by simp
  have nz: "x \<noteq> 0" using False b(1) by (simp add: x_def)
  have xb: "x * of_nat b = of_int a" using b(1) by (simp add: x_def)
  have kx: "k = \<lfloor>x\<rfloor>"
  proof -
    have "x = of_int a / of_int (int b)" by (simp add: x_def)
    then show ?thesis unfolding k_def by (simp only: floor_divide_of_int_eq)
  qed
  have k_le: "of_int k \<le> x" unfolding kx by simp
  txt \<open>the quotient stays at least \<open>1 / b\<close> below the next integer\<close>
  have x_up: "x \<le> of_int k + 1 - 1 / of_nat b"
  proof -
    have "a mod int b < int b" using b(1) by simp
    then have "a mod int b \<le> int b - 1" by simp
    moreover have "a = k * int b + a mod int b" unfolding k_def by simp
    ultimately have "a \<le> k * int b + int b - 1" by linarith
    then have "(of_int a :: rat) \<le> of_int (k * int b + int b - 1)" by (simp only: of_int_le_iff)
    then have "(of_int a :: rat) \<le> of_int k * of_nat b + of_nat b - 1" by simp
    moreover have "(of_int k + 1 - 1 / of_nat b) * of_nat b = of_int k * of_nat b + of_nat b - (1::rat)"
      using bpos by (simp add: algebra_simps)
    ultimately have "x * of_nat b \<le> (of_int k + 1 - 1 / of_nat b) * of_nat b"
      unfolding xb by simp
    then show ?thesis using bpos by (simp only: mult_le_cancel_right_pos)
  qed
  have abs_x: "\<bar>x\<bar> \<le> of_int \<bar>a\<bar>"
  proof -
    have "1 \<le> (of_nat b :: rat)" using b(1) by simp
    then have "\<bar>of_int a :: rat\<bar> / of_nat b \<le> \<bar>of_int a\<bar> / 1"
      by (intro divide_left_mono) simp_all
    then show ?thesis by (simp add: x_def)
  qed
  have "(of_int \<bar>a\<bar> :: rat) < of_int (2 ^ 53)" using a by (simp only: of_int_less_iff)
  then have a53: "(of_int \<bar>a\<bar> :: rat) < 2 ^ 53" by simp
  with abs_x have ax: "\<bar>x\<bar> < 2 ^ 53" by linarith
  define e where "e = max (binary_exponent x) (- 1022)"
  have e52: "e \<le> 52" unfolding e_def using binary_exponent_le_52 [OF nz ax] by simp
  define N where "N = (2::nat) ^ nat (52 - e)"
  have Npos: "(0::rat) < of_nat N" by (simp add: N_def)
  have N_pow: "(of_nat N :: rat) = power_int 2 (52 - e)"
    using e52 by (simp add: N_def power_int_nonneg_exp)
  txt \<open>twice the scaling factor exceeds the divisor\<close>
  have twoN: "(of_nat b :: rat) < 2 * of_nat N"
  proof (cases "binary_exponent x \<le> - 1022")
    case True
    then have "e = - 1022" by (simp add: e_def)
    then have "N = 2 ^ 1074" by (simp add: N_def)
    moreover have "(2::nat) ^ 53 \<le> 2 ^ 1074" by (intro power_increasing) simp_all
    ultimately have "b < N" using b(2) by linarith
    then have "(of_nat b :: rat) < of_nat N" by (simp only: of_nat_less_iff)
    with Npos show ?thesis by linarith
  next
    case False
    then have ee: "e = binary_exponent x" by (simp add: e_def)
    have p: "(0::rat) < power_int 2 e" by simp
    have "power_int 2 e \<le> \<bar>x\<bar>" unfolding ee by (rule binary_exponent_bounds(1) [OF nz])
    then have "of_nat b * power_int 2 e \<le> of_nat b * \<bar>x\<bar>"
      using bpos by (simp only: mult_le_cancel_left_pos)
    also have "of_nat b * \<bar>x\<bar> = \<bar>x * of_nat b\<bar>" by (simp add: abs_mult mult.commute)
    also have "\<dots> = of_int \<bar>a\<bar>" unfolding xb by simp
    finally have "of_nat b * power_int 2 e < (2::rat) ^ 53" using a53 by linarith
    then have "(of_nat b :: rat) < 2 ^ 53 / power_int 2 e"
      using p by (simp only: pos_less_divide_eq)
    also have "(2::rat) ^ 53 / power_int 2 e = power_int 2 (53 - e)"
    proof -
      have "power_int (2::rat) (53 - e) = power_int 2 53 / power_int 2 e"
        by (rule power_int_diff) simp
      then show ?thesis by simp
    qed
    also have "power_int (2::rat) (53 - e) = power_int 2 (52 - e) * 2"
    proof -
      have "power_int (2::rat) ((52 - e) + 1) = power_int 2 (52 - e) * 2"
        by (rule power_int_add_1) simp
      then show ?thesis by (simp add: algebra_simps)
    qed
    finally show ?thesis by (simp add: N_pow)
  qed
  define y where "y = x * of_nat N"
  define rn where "rn = round_half_even y"
  have lowK: "k * int N \<le> rn"
  proof -
    have "of_int k * of_nat N \<le> x * of_nat N"
      using k_le Npos by (simp only: mult_le_cancel_right_pos)
    then have "of_int (k * int N) \<le> y" by (simp add: y_def)
    then show ?thesis unfolding rn_def by (rule round_half_even_ge)
  qed
  have upK: "rn < (k + 1) * int N"
  proof -
    have half: "1 / 2 < of_nat N / (of_nat b :: rat)"
      using twoN bpos by (simp add: field_simps)
    have "y \<le> (of_int k + 1 - 1 / of_nat b) * of_nat N"
      unfolding y_def using x_up Npos by (simp only: mult_le_cancel_right_pos)
    also have "\<dots> = of_int ((k + 1) * int N) - of_nat N / of_nat b"
      by (simp add: algebra_simps)
    also have "\<dots> < of_int ((k + 1) * int N) - 1 / 2" using half by linarith
    finally show ?thesis unfolding rn_def by (rule round_half_even_less)
  qed
  define r :: rat where "r = of_int rn / of_nat N"
  have r_low: "of_int k \<le> r"
  proof -
    have "(of_int (k * int N) :: rat) \<le> of_int rn" using lowK by (simp only: of_int_le_iff)
    then have "of_int k * of_nat N \<le> (of_int rn :: rat)" by simp
    then show ?thesis unfolding r_def using Npos by (simp add: pos_le_divide_eq)
  qed
  have r_up: "r < of_int k + 1"
  proof -
    have "(of_int rn :: rat) < of_int ((k + 1) * int N)" using upK by (simp only: of_int_less_iff)
    then have "(of_int rn :: rat) < (of_int k + 1) * of_nat N" by simp
    then show ?thesis unfolding r_def using Npos by (simp add: pos_divide_less_eq)
  qed
  have fl: "\<lfloor>r\<rfloor> = k" using r_low r_up by (intro floor_unique) simp_all
  txt \<open>the result is far from the overflow threshold\<close>
  have "- (of_int \<bar>a\<bar> :: rat) \<le> x" using abs_x by linarith
  then have "(of_int (- \<bar>a\<bar>) :: rat) \<le> x" by simp
  then have "- \<bar>a\<bar> \<le> k" unfolding kx by (simp only: le_floor_iff)
  moreover have "k \<le> \<bar>a\<bar>"
  proof -
    have "(of_int k :: rat) \<le> of_int \<bar>a\<bar>" using k_le abs_x by linarith
    then show ?thesis by (simp only: of_int_le_iff)
  qed
  ultimately have kb: "- (2 ^ 53) < k" "k < 2 ^ 53" using a by linarith+
  have "(of_int (- (2 ^ 53)) :: rat) < of_int k" "(of_int k :: rat) < of_int (2 ^ 53)"
    using kb by (simp_all only: of_int_less_iff)
  then have "- (2 ^ 53) < (of_int k :: rat)" "(of_int k :: rat) < 2 ^ 53" by simp_all
  with r_low r_up have "\<bar>r\<bar> < 2 ^ 53 + 1" by linarith
  then have rb: "\<bar>r\<bar> < 2 ^ 54" by simp
  have e52': "max (binary_exponent x) (- 1022) \<le> 52" using e52 unfolding e_def .
  have N': "N = (2::nat) ^ nat (52 - max (binary_exponent x) (- 1022))" unfolding N_def e_def ..
  have r': "r = of_int (round_half_even (x * of_nat N)) / of_nat N"
    unfolding r_def rn_def y_def ..
  have "to_double x = Num r" by (rule to_double_scaled [OF nz e52' N' r' rb])
  with fl show ?thesis unfolding x_def k_def by blast
qed


lemma Number_of_nat_small: "n < 2 ^ 53 \<Longrightarrow> Number_of_nat n = Num (of_nat n)"
  using to_double_of_int [of "int n"] by (simp add: Number_of_nat_def)

lemma moment_in_doubles:
  assumes "0 < S" "lv < 2 ^ 53" "B < 2 ^ 53" "S < 2 ^ 53"
  shows "Math_floor (js_divide (js_minus (Number_of_nat lv) (Number_of_nat B)) (Number_of_nat S))
           = Num (of_int (moment_of lv B S))"
proof -
  define a where "a = int lv - int B"
  have "int lv < 2 ^ 53" "int B < 2 ^ 53" using assms(2,3) by simp_all
  then have ab: "\<bar>a\<bar> < 2 ^ 53" unfolding a_def by linarith
  have "(of_nat lv :: rat) - of_nat B = of_int a" by (simp add: a_def)
  then have sub: "js_minus (Number_of_nat lv) (Number_of_nat B) = Num (of_int a)"
    using to_double_of_int [OF ab] assms(2,3) by (simp add: Number_of_nat_small)
  obtain r where r: "to_double (of_int a / of_nat S) = Num r" "\<lfloor>r\<rfloor> = a div int S"
    using to_double_quotient_floor [OF assms(1) assms(4) ab] by blast
  have quot: "js_divide (Num (of_int a)) (Number_of_nat S) = Num r"
    using assms(1,4) r(1) by (simp add: Number_of_nat_small)
  have "(real lv - real B) / real S = real_of_int a / real_of_int (int S)"
    by (simp add: a_def)
  then have "moment_of lv B S = a div int S"
    unfolding moment_of_def by (simp only: floor_divide_of_int_eq)
  then show ?thesis unfolding sub quot using r(2) by simp
qed


lemma getConfig_decoded:
  "decode_config k entries = Inr c \<Longrightarrow>
   getConfig k entries st
     = (Inr c, st\<lparr>ledger_reads := Suc (ledger_reads st), cachedConfig := Some c\<rparr>)"
  by (simp add: getConfig_def)

lemma sample_decodes: "decode_config sample_constants sample_entries = Inr sample_config"
  by code_simp


text \<open>
  Claim C9, as amended. For a ledger index \<open>lv\<close> (above zero: a missing index or \<open>0\<close>
  stands for the ledger version the API holds) and a configuration with base index \<open>B\<close>
  and moment size \<open>S > 0\<close>, all three below \<open>2 ^ 53\<close>, \<open>getMoment\<close> returns the floor
  of \<open>(lv - B) / S\<close>. On a call with an empty cache the configuration is read from the
  ledger once and stored; on a call with a stored configuration the ledger is not read
  and the stored value is used, whatever the ledger holds by then; \<open>getConfig\<close> always
  reads the ledger and replaces the stored value.
\<close>

theorem moment_formula_and_cache:
  "(cachedConfig st = Some c \<and> 0 < momentSize c \<and> momentSize c < 2 ^ 53
      \<and> momentBaseIdx c < 2 ^ 53 \<and> 0 < lv \<and> lv < 2 ^ 53 \<longrightarrow>
      getMoment k entries current (Some lv) st
        = (Inr (Num (of_int (moment_of lv (momentBaseIdx c) (momentSize c)))), st))
   \<and> (cachedConfig st = None \<and> decode_config k entries = Inr c
      \<and> 0 < momentSize c \<and> momentSize c < 2 ^ 53
      \<and> momentBaseIdx c < 2 ^ 53 \<and> 0 < lv \<and> lv < 2 ^ 53 \<longrightarrow>
      getMoment k entries current (Some lv) st
        = (Inr (Num (of_int (moment_of lv (momentBaseIdx c) (momentSize c)))),
           st\<lparr>ledger_reads := Suc (ledger_reads st), cachedConfig := Some c\<rparr>))
   \<and> (decode_config k entries = Inr c \<longrightarrow>
      getConfig k entries st
        = (Inr c, st\<lparr>ledger_reads := Suc (ledger_reads st), cachedConfig := Some c\<rparr>))
   \<and> ledger_version_used None current = current
   \<and> ledger_version_used (Some 0) current = current"
proof -
  have cached: "getMoment k entries current (Some lv) st
        = (Inr (Num (of_int (moment_of lv (momentBaseIdx c) (momentSize c)))), st)"
    if "cachedConfig st = Some c \<and> 0 < momentSize c \<and> momentSize c < 2 ^ 53
      \<and> momentBaseIdx c < 2 ^ 53 \<and> 0 < lv \<and> lv < 2 ^ 53"
    using that moment_in_doubles [of "momentSize c" lv "momentBaseIdx c"]
    by (simp add: getMoment_def ledger_version_used_def)
  have first: "getMoment k entries current (Some lv) st
        = (Inr (Num (of_int (moment_of lv (momentBaseIdx c) (momentSize c)))),
           st\<lparr>ledger_reads := Suc (ledger_reads st), cachedConfig := Some c\<rparr>)"
    if "cachedConfig st = None \<and> decode_config k entries = Inr c
      \<and> 0 < momentSize c \<and> momentSize c < 2 ^ 53
      \<and> momentBaseIdx c < 2 ^ 53 \<and> 0 < lv \<and> lv < 2 ^ 53"
    using that moment_in_doubles [of "momentSize c" lv "momentBaseIdx c"]
    by (simp add: getMoment_def ledger_version_used_def getConfig_decoded)
  have refetch: "getConfig k entries st
        = (Inr c, st\<lparr>ledger_reads := Suc (ledger_reads st), cachedConfig := Some c\<rparr>)"
    if "decode_config k entries = Inr c"
    using that by (rule getConfig_decoded)
  have dflt: "ledger_version_used None current = current"
    "ledger_version_used (Some 0) current = current"
    by (simp_all add: ledger_version_used_def)
  from cached first refetch dflt show ?thesis by blast
qed

theorem moment_formula_and_cache_witness:
  "getMoment sample_constants sample_entries 12000 (Some 10000) fresh_hook
     = (Inr (Num 5), \<lparr>cachedConfig = Some sample_config, ledger_reads = 1\<rparr>)
   \<and> getMoment sample_constants [] 12000 (Some 10000)
        \<lparr>cachedConfig = Some sample_config, ledger_reads = 1\<rparr>
     = (Inr (Num 5), \<lparr>cachedConfig = Some sample_config, ledger_reads = 1\<rparr>)"
proof -
  have m: "moment_of 10000 (momentBaseIdx sample_config) (momentSize sample_config) = 5"
    by (simp add: moment_of_def sample_config_def)
  have h1: "cachedConfig fresh_hook = None
       \<and> decode_config sample_constants sample_entries = Inr sample_config
       \<and> 0 < momentSize sample_config \<and> momentSize sample_config < 2 ^ 53
       \<and> momentBaseIdx sample_config < 2 ^ 53 \<and> (0::nat) < 10000 \<and> (10000::nat) < 2 ^ 53"
    by (simp add: fresh_hook_def sample_decodes sample_config_def)
  have h2: "cachedConfig \<lparr>cachedConfig = Some sample_config, ledger_reads = 1\<rparr>
         = Some sample_config
       \<and> 0 < momentSize sample_config \<and> momentSize sample_config < 2 ^ 53
       \<and> momentBaseIdx sample_config < 2 ^ 53 \<and> (0::nat) < 10000 \<and> (10000::nat) < 2 ^ 53"
    by (simp add: sample_config_def)
  from moment_formula_and_cache [of fresh_hook sample_config 10000 sample_constants
      sample_entries 12000] h1
  have 1: "getMoment sample_constants sample_entries 12000 (Some 10000) fresh_hook
     = (Inr (Num (of_int (moment_of 10000 (momentBaseIdx sample_config)
                             (momentSize sample_config)))),
        fresh_hook\<lparr>ledger_reads := Suc (ledger_reads fresh_hook),
                     cachedConfig := Some sample_config\<rparr>)"
    by blast
  from moment_formula_and_cache [of "\<lparr>cachedConfig = Some sample_config, ledger_reads = 1\<rparr>"
      sample_config 10000 sample_constants "[]" 12000] h2
  have 2: "getMoment sample_constants [] 12000 (Some 10000)
        \<lparr>cachedConfig = Some sample_config, ledger_reads = 1\<rparr>
     = (Inr (Num (of_int (moment_of 10000 (momentBaseIdx sample_config)
                             (momentSize sample_config)))),
        \<lparr>cachedConfig = Some sample_config, ledger_reads = 1\<rparr>)"
    by blast
  from 1 2 show ?thesis by (simp add: m fresh_hook_def)
qed


subsection \<open>A base index beyond the integers that doubles hold\<close>

lemma far_base_states:
  "map (\<lambda>s. (fst s, hex_bytes (snd s))) (getHookStates far_base_entries)
     = [(''4556520100000000000000000000000000000000000000000000000000000001'', [0, 3]),
        (''4556523400000000000000000000000000000000000000000000000000000000'',
         [16, 0, 0, 0, 0, 0, 0, 0])]"
  by code_simp

lemma bit_length_two_pow_60: "bit_length 1152921504606846976 = 61"
  by (rule bit_length_unique) simp_all

lemma far_base_decodes:
  "decode_config sample_constants far_base_entries = Inr far_base_config"
  unfolding decode_config_def Let_def far_base_states
  by (simp add: getStateData_def sample_constants_def read_or_default_def readUInt16_def
        readUInt64_def readUIntBE_def Number_of_big_def bit_length_two_pow_60
        far_base_config_def)

lemma Number_of_nat_two_pow_60: "Number_of_nat (2 ^ 60) = Num (2 ^ 60)"
proof -
  have "to_double (2 ^ 60) = Num (of_int (2 ^ 52) * power_int 2 (60 - 52))"
    by (rule to_double_eval) (simp_all add: round_half_even_of_int [of "2 ^ 52", simplified])
  then show ?thesis by (simp add: Number_of_nat_def)
qed

lemma quotient_beyond_double_precision:
  "Math_floor (js_divide (js_minus (Number_of_nat 128) (Number_of_nat (2 ^ 60))) (Number_of_nat 3))
     = Num (- 384307168202282304)"
proof -
  have d: "to_double (128 - 2 ^ 60) = Num (of_int (- (2 ^ 53 - 1)) * power_int 2 (59 - 52))"
    by (rule to_double_eval)
       (simp_all add: round_half_even_of_int [of "- (2 ^ 53 - 1)", simplified])
  have q: "to_double ((128 - 2 ^ 60) / 3)
             = Num (of_int (- 6004799503160661) * power_int 2 (58 - 52))"
    by (rule to_double_eval) (simp_all add: round_half_even_nearest)
  have n: "Number_of_nat 128 = Num 128" "Number_of_nat 3 = Num 3"
    using Number_of_nat_small [of 128] Number_of_nat_small [of 3] by simp_all
  have "js_minus (Number_of_nat 128) (Number_of_nat (2 ^ 60)) = Num (128 - 2 ^ 60)"
    unfolding n Number_of_nat_two_pow_60 using d by simp
  then have "js_divide (js_minus (Number_of_nat 128) (Number_of_nat (2 ^ 60))) (Number_of_nat 3)
               = Num (- 384307168202282304)"
    unfolding n using q by simp
  then show ?thesis by simp
qed

lemma exact_moment_far_base: "moment_of 128 (2 ^ 60) 3 = - 384307168202282283"
proof -
  have "(real 128 - real (2 ^ 60)) / real 3 = real_of_int (128 - 2 ^ 60) / real_of_int 3"
    by simp
  then have "moment_of 128 (2 ^ 60) 3 = (128 - 2 ^ 60) div 3"
    unfolding moment_of_def by (simp only: floor_divide_of_int_eq)
  then show ?thesis by simp
qed

text \<open>
  Without the bound the formula fails. The base index is a 64-bit state of the hook
  account; with the state \<open>1000000000000000\<close> (hexadecimal, \<open>2 ^ 60\<close>), a moment size
  of 3 and the ledger index 128, the difference \<open>128 - 2 ^ 60\<close> is a double, its third
  lies between \<open>2 ^ 58\<close> and \<open>2 ^ 59\<close>, where doubles are 64 apart, and the division
  gives the multiple of 64 nearest to it. \<open>getMoment\<close> returns \<open>-384307168202282304\<close>;
  the floor of \<open>(lv - B) / S\<close> is \<open>-384307168202282283\<close>.
\<close>

theorem moment_beyond_double_precision:
  "getMoment sample_constants far_base_entries 128 (Some 128) fresh_hook
     = (Inr (Num (- 384307168202282304)),
        \<lparr>cachedConfig = Some far_base_config, ledger_reads = 1\<rparr>)
   \<and> moment_of 128 (momentBaseIdx far_base_config) (momentSize far_base_config)
     = - 384307168202282283"
proof -
  have b: "(1152921504606846976::nat) = 2 ^ 60" by simp
  have "getMoment sample_constants far_base_entries 128 (Some 128) fresh_hook
     = (Inr (Math_floor (js_divide (js_minus (Number_of_nat 128) (Number_of_nat (2 ^ 60)))
                          (Number_of_nat 3))),
        \<lparr>cachedConfig = Some far_base_config, ledger_reads = 1\<rparr>)"
    unfolding b [symmetric]
    by (simp add: getMoment_def fresh_hook_def getConfig_decoded [OF far_base_decodes]
          ledger_version_used_def far_base_config_def)
  moreover have "moment_of 128 (momentBaseIdx far_base_config) (momentSize far_base_config)
     = moment_of 128 (2 ^ 60) 3"
    by (simp add: far_base_config_def)
  ultimately show ?thesis
    unfolding quotient_beyond_double_precision exact_moment_far_base by simp
qed

section \<open>The events of a redeem response\<close>

lemma property_not_null: "v \<noteq> JNull \<Longrightarrow> \<exists>r. property v name = Inr r"
  by (cases v) simp_all

text \<open>
  A reward payment is recognised before any memo is looked at: a payment of the hook
  account to a registered host in \<open>EVR\<close> that carries the two memos of a successful
  redeem response is a \<open>Reward\<close> event, not a \<open>RedeemSuccess\<close> event.
\<close>

theorem reward_precedes_redeem_response:
  "extractEvernodeHookEvent sample_hook_env reward_with_redeem_memos
     = Inr (Some (Reward reward_with_redeem_memos (Some ''rHostA'') ''2''))
   \<and> extractEvernodeHookEvent sample_hook_env reward_with_redeem_memos
     \<noteq> Inr (Some (RedeemSuccess reward_with_redeem_memos ''C53E'' ''instance info''))
   \<and> PaymentMemos reward_with_redeem_memos = Some [redeem_ref_memo, instance_memo]
   \<and> memo_type redeem_ref_memo = Some TYPE_REDEEM_REF
   \<and> memo_format redeem_ref_memo = Some (FORMAT_BINARY sample_hook_env)
   \<and> memo_data redeem_ref_memo = Some ''C53E''
   \<and> memo_type instance_memo = Some (TYPE_REDEEM_RESP sample_hook_env)
   \<and> memo_format instance_memo \<noteq> Some FORMAT_JSON
   \<and> memo_data instance_memo = Some ''instance info''"
  by (simp add: extractEvernodeHookEvent_def reward_payment_def sample_hook_env_def
        reward_with_redeem_memos_def redeem_ref_memo_def instance_memo_def EVR_def
        TYPE_REDEEM_REF_def FORMAT_JSON_def)

text \<open>
  Claim C6, as amended. For a transaction that is not a reward payment (a payment of the
  hook account, in \<open>EVR\<close>, to a registered host), whose first memo has the type
  \<open>RedeemRef\<close>, the binary format and non-empty data, and whose second memo has the type
  \<open>RedeemResp\<close> and non-empty data: when the second memo's format is JSON and its data
  parses to a JSON value other than \<open>null\<close>, the event is \<open>RedeemError\<close> with the first
  memo's data as the redeem hash and the \<open>reason\<close> property of the parsed value; when
  the second memo's format is not JSON, the event is \<open>RedeemSuccess\<close> with the redeem hash
  and the second memo's data as it is.
\<close>

theorem redeem_response_events:
  assumes "\<not> reward_payment env tx"
    and "PaymentMemos tx = Some (m0 # m1 # rest)"
    and "memo_type m0 = Some TYPE_REDEEM_REF"
    and "memo_format m0 = Some (FORMAT_BINARY env)"
    and "memo_data m0 = Some h" and "h \<noteq> []"
    and "memo_type m1 = Some (TYPE_REDEEM_RESP env)"
    and "memo_data m1 = Some p" and "p \<noteq> []"
  shows "(memo_format m1 = Some FORMAT_JSON \<and> JSON_parse env p = Some err \<and> err \<noteq> JNull
            \<longrightarrow> (\<exists>reason. property err ''reason'' = Inr reason
                   \<and> extractEvernodeHookEvent env tx = Inr (Some (RedeemError tx h reason))))
       \<and> (memo_format m1 \<noteq> Some FORMAT_JSON
            \<longrightarrow> extractEvernodeHookEvent env tx = Inr (Some (RedeemSuccess tx h p)))"
proof -
  have not_redeem: "memo_type m0 \<noteq> Some TYPE_REDEEM"
    using assms(3) by (simp add: TYPE_REDEEM_def TYPE_REDEEM_REF_def)
  have d0: "has_data m0" and d1: "has_data m1"
    using assms by (simp_all add: has_data_def)
  have success: "extractEvernodeHookEvent env tx = Inr (Some (RedeemSuccess tx h p))"
    if "memo_format m1 \<noteq> Some FORMAT_JSON"
    using that assms not_redeem d0 d1 by (simp add: extractEvernodeHookEvent_def)
  have failure: "\<exists>reason. property err ''reason'' = Inr reason
                   \<and> extractEvernodeHookEvent env tx = Inr (Some (RedeemError tx h reason))"
    if j: "memo_format m1 = Some FORMAT_JSON \<and> JSON_parse env p = Some err \<and> err \<noteq> JNull"
  proof -
    from j property_not_null [of err "''reason''"]
    obtain reason where r: "property err ''reason'' = Inr reason" by blast
    with j assms not_redeem d0 d1
    have "extractEvernodeHookEvent env tx = Inr (Some (RedeemError tx h reason))"
      by (simp add: extractEvernodeHookEvent_def)
    with r show ?thesis by blast
  qed
  from success failure show ?thesis by blast
qed


theorem redeem_response_events_witness:
  "\<not> reward_payment sample_hook_env host_error_response
   \<and> \<not> reward_payment sample_hook_env host_success_response
   \<and> extractEvernodeHookEvent sample_hook_env host_error_response
       = Inr (Some (RedeemError host_error_response ''C53E'' (Some (JString ''no capacity''))))
   \<and> extractEvernodeHookEvent sample_hook_env host_success_response
       = Inr (Some (RedeemSuccess host_success_response ''C53E'' ''instance info''))"
proof -
  have n1: "\<not> reward_payment sample_hook_env host_error_response"
    and n2: "\<not> reward_payment sample_hook_env host_success_response"
    by (simp_all add: reward_payment_def sample_hook_env_def host_error_response_def
          host_success_response_def)
  have e: "(memo_format error_memo = Some FORMAT_JSON
              \<and> JSON_parse sample_hook_env error_payload
                  = Some (JObject [(''reason'', JString ''no capacity'')])
              \<and> JObject [(''reason'', JString ''no capacity'')] \<noteq> JNull
            \<longrightarrow> (\<exists>reason. property (JObject [(''reason'', JString ''no capacity'')]) ''reason''
                       = Inr reason
                   \<and> extractEvernodeHookEvent sample_hook_env host_error_response
                       = Inr (Some (RedeemError host_error_response ''C53E'' reason))))
       \<and> (memo_format error_memo \<noteq> Some FORMAT_JSON
            \<longrightarrow> extractEvernodeHookEvent sample_hook_env host_error_response
                = Inr (Some (RedeemSuccess host_error_response ''C53E'' error_payload)))"
    by (rule redeem_response_events [OF n1, where rest = "[]" and ?m0.0 = redeem_ref_memo])
       (simp_all add: host_error_response_def redeem_ref_memo_def error_memo_def
          sample_hook_env_def TYPE_REDEEM_REF_def error_payload_def)
  have s: "(memo_format instance_memo = Some FORMAT_JSON
              \<and> JSON_parse sample_hook_env ''instance info'' = Some JNull \<and> JNull \<noteq> JNull
            \<longrightarrow> (\<exists>reason. property JNull ''reason'' = Inr reason
                   \<and> extractEvernodeHookEvent sample_hook_env host_success_response
                       = Inr (Some (RedeemError host_success_response ''C53E'' reason))))
       \<and> (memo_format instance_memo \<noteq> Some FORMAT_JSON
            \<longrightarrow> extractEvernodeHookEvent sample_hook_env host_success_response
                = Inr (Some (RedeemSuccess host_success_response ''C53E'' ''instance info'')))"
    by (rule redeem_response_events [OF n2, where rest = "[]" and ?m0.0 = redeem_ref_memo])
       (simp_all add: host_success_response_def redeem_ref_memo_def instance_memo_def
          sample_hook_env_def TYPE_REDEEM_REF_def)
  have j: "memo_format error_memo = Some FORMAT_JSON"
    "JSON_parse sample_hook_env error_payload
       = Some (JObject [(''reason'', JString ''no capacity'')])"
    "memo_format instance_memo \<noteq> Some FORMAT_JSON"
    by (simp_all add: error_memo_def instance_memo_def FORMAT_JSON_def sample_hook_env_def)
  from e j have "\<exists>reason. property (JObject [(''reason'', JString ''no capacity'')]) ''reason''
                       = Inr reason
                   \<and> extractEvernodeHookEvent sample_hook_env host_error_response
                       = Inr (Some (RedeemError host_error_response ''C53E'' reason))"
    by blast
  then have 1: "extractEvernodeHookEvent sample_hook_env host_error_response
       = Inr (Some (RedeemError host_error_response ''C53E'' (Some (JString ''no capacity''))))"
    by auto
  from s j have 2: "extractEvernodeHookEvent sample_hook_env host_success_response
       = Inr (Some (RedeemSuccess host_success_response ''C53E'' ''instance info''))"
    by blast
  from n1 n2 1 2 show ?thesis by blast
qed

section \<open>Joining signed transactions\<close>

text \<open>
  \<open>multiSign\<close> throws its own error exactly for the empty list, and for a non-empty list
  it is \<open>xrpl.multisign\<close>, whatever that function does.
\<close>

lemma multiSign_empty_iff:
  "(\<exists>msg. multiSign xrpl_multisign transactions = Inl (EmptyList msg)) \<longleftrightarrow> transactions = []"
  by (auto simp add: multiSign_def split: sum.splits)

lemma multiSign_delegates:
  "transactions \<noteq> [] \<Longrightarrow>
   multiSign xrpl_multisign transactions
     = map_sum LibraryError (\<lambda>s. s) (xrpl_multisign transactions)"
  by (cases "xrpl_multisign transactions") (simp_all add: multiSign_def)

lemma reordering_same_set: "reordering xs ys \<Longrightarrow> set xs = set ys"
proof -
  assume r: "reordering xs ys"
  have "x \<in> set xs \<longleftrightarrow> x \<in> set ys" for x
    using r count_list_0_iff [of xs x] count_list_0_iff [of ys x]
    by (auto simp add: reordering_def)
  then show ?thesis by blast
qed

lemma xrpl_multisign_same_body:
  "transactions \<noteq> [] \<Longrightarrow> \<forall>t \<in> set transactions. tx_body t = b \<Longrightarrow>
   xrpl_multisign transactions
     = Inr \<lparr>tx_body = b, Signers = \<Union> (Signers ` set transactions)\<rparr>"
  by (cases transactions) (simp_all add: xrpl_multisign_def)

text \<open>
  Claim C8. \<open>multiSign\<close> fails with its empty-list error exactly when the list of
  signed transactions is empty. For a non-empty list of signed copies of one transaction
  it gives that transaction with the union of the signer proofs of all copies, and the
  result is the same for every order of the list.
\<close>

theorem multiSign_union_any_order:
  "((\<exists>msg. multiSign xrpl_multisign transactions = Inl (EmptyList msg)) \<longleftrightarrow> transactions = [])
   \<and> (transactions \<noteq> [] \<and> (\<forall>t \<in> set transactions. tx_body t = b) \<longrightarrow>
        multiSign xrpl_multisign transactions
          = Inr \<lparr>tx_body = b, Signers = \<Union> (Signers ` set transactions)\<rparr>)
   \<and> (transactions \<noteq> [] \<and> (\<forall>t \<in> set transactions. tx_body t = b)
        \<and> reordering reordered transactions \<longrightarrow>
        multiSign xrpl_multisign reordered = multiSign xrpl_multisign transactions)"
proof -
  have empty: "(\<exists>msg. multiSign xrpl_multisign transactions = Inl (EmptyList msg))
                 \<longleftrightarrow> transactions = []"
    by (rule multiSign_empty_iff)
  have joined: "multiSign xrpl_multisign ts
          = Inr \<lparr>tx_body = b, Signers = \<Union> (Signers ` set ts)\<rparr>"
    if "ts \<noteq> []" "\<forall>t \<in> set ts. tx_body t = b" for ts :: "('a, 'b) signed_tx list"
    using that xrpl_multisign_same_body [OF that]
    by (simp add: multiSign_delegates)
  have order: "multiSign xrpl_multisign reordered = multiSign xrpl_multisign transactions"
    if h: "transactions \<noteq> [] \<and> (\<forall>t \<in> set transactions. tx_body t = b)
        \<and> reordering reordered transactions"
  proof -
    from h have s: "set reordered = set transactions" by (simp add: reordering_same_set)
    with h have "reordered \<noteq> []" by auto
    with s h joined [of reordered] joined [of transactions] show ?thesis by simp
  qed
  from empty joined [of transactions] order show ?thesis by blast
qed

theorem multiSign_union_any_order_witness:
  "multiSign xrpl_multisign [signed_by_a, signed_by_b]
     = Inr \<lparr>tx_body = ''Payment 5 EVR'', Signers = {''rSignerA'', ''rSignerB''}\<rparr>
   \<and> multiSign xrpl_multisign [signed_by_b, signed_by_a]
     = multiSign xrpl_multisign [signed_by_a, signed_by_b]"
proof -
  have h: "[signed_by_a, signed_by_b] \<noteq> []
       \<and> (\<forall>t \<in> set [signed_by_a, signed_by_b]. tx_body t = ''Payment 5 EVR'')
       \<and> reordering [signed_by_b, signed_by_a] [signed_by_a, signed_by_b]"
    by (simp add: signed_by_a_def signed_by_b_def reordering_def)
  from multiSign_union_any_order [of "[signed_by_a, signed_by_b]" "''Payment 5 EVR''"
      "[signed_by_b, signed_by_a]"] h
  have "multiSign xrpl_multisign [signed_by_a, signed_by_b]
          = Inr \<lparr>tx_body = ''Payment 5 EVR'',
                 Signers = \<Union> (Signers ` set [signed_by_a, signed_by_b])\<rparr>"
    and "multiSign xrpl_multisign [signed_by_b, signed_by_a]
          = multiSign xrpl_multisign [signed_by_a, signed_by_b]"
    by blast+
  then show ?thesis by (auto simp add: signed_by_a_def signed_by_b_def)
qed

end
